theory Spec2Isabelle
  imports Main "HOL-Library.Word" "HOL-Library.Sublist"
begin

unbundle bit_operations_syntax

section \<open>Go standard library: strings, path, path/filepath\<close>

text \<open>
  Go strings are byte sequences; \<open>string\<close> (a list of 8-bit characters) is the same data.
  The functions of \<open>path/filepath\<close> and the value of \<open>runtime.GOOS\<close> depend on the
  target the package is built for. They reach the package as a parameter (the records
  \<open>platform\<close> and \<open>build\<close> below); the definitions of this section that are named
  \<open>filepath_\<close> are the implementation for Unix-like targets, where the separator is the
  slash and there are no volume names.
\<close>

definition strings_HasPrefix :: "string \<Rightarrow> string \<Rightarrow> bool" where
  "strings_HasPrefix s pre = prefix pre s"

text \<open>The elements of a path: the pieces between slashes, empty pieces included.\<close>

fun splitSlash :: "string \<Rightarrow> string list" where
  "splitSlash [] = [[]]"
| "splitSlash (c # cs) =
     (if c = CHR ''/'' then [] # splitSlash cs
      else (case splitSlash cs of
              [] \<Rightarrow> [[c]]
            | w # ws \<Rightarrow> (c # w) # ws))"

fun joinSlash :: "string list \<Rightarrow> string" where
  "joinSlash [] = []"
| "joinSlash [x] = x"
| "joinSlash (x # y # ys) = x @ CHR ''/'' # joinSlash (y # ys)"

text \<open>
  \<open>filepath.Clean\<close> belongs to the Go library, not to the package; it is modelled by the
  rules of its documentation. The path is processed one element at a time and the
  elements of the result are kept on a stack (most recent element first): an empty
  element (repeated or trailing slashes) and \<open>.\<close> are dropped; \<open>..\<close> removes the element
  before it when that is not itself \<open>..\<close>, is dropped at the root of a rooted path, and is
  kept when a relative path has nothing left to remove; every other element is kept. The
  result is the elements joined by single slashes, after the leading slash of a rooted
  path, and \<open>.\<close> when nothing is left of a relative path.
\<close>

fun cleanStep :: "bool \<Rightarrow> string list \<Rightarrow> string \<Rightarrow> string list" where
  "cleanStep rooted stk e =
     (if e = [] \<or> e = ''.'' then stk
      else if e = ''..'' then
        (case stk of
           [] \<Rightarrow> (if rooted then [] else [''..''])
         | t # ts \<Rightarrow> (if t = ''..'' then ''..'' # t # ts else ts))
      else e # stk)"

definition filepath_Clean :: "string \<Rightarrow> string" where
  "filepath_Clean p =
     (if p = [] then ''.''
      else
        let rooted = (hd p = CHR ''/'');
            out = rev (foldl (cleanStep rooted) [] (splitSlash p))
        in if rooted then CHR ''/'' # joinSlash out
           else if out = [] then ''.''
           else joinSlash out)"

text \<open>Where the separator already is the slash, \<open>filepath.ToSlash\<close> returns its argument.\<close>

definition filepath_ToSlash :: "string \<Rightarrow> string" where
  "filepath_ToSlash p = p"

text \<open>
  \<open>filepath.Join\<close>: the elements from the first non-empty one on, joined with slashes
  and cleaned; the empty string when every element is empty.
\<close>

fun filepath_Join :: "string list \<Rightarrow> string" where
  "filepath_Join [] = []"
| "filepath_Join (e # es) =
     (if e \<noteq> [] then filepath_Clean (joinSlash (e # es)) else filepath_Join es)"

text \<open>\<open>filepath.Split\<close>: the path up to and including its last slash, and the rest.\<close>

definition filepath_Split :: "string \<Rightarrow> string \<times> string" where
  "filepath_Split p =
     (rev (dropWhile (\<lambda>c. c \<noteq> CHR ''/'') (rev p)),
      rev (takeWhile (\<lambda>c. c \<noteq> CHR ''/'') (rev p)))"

text \<open>\<open>filepath.Dir\<close>: the cleaned directory part of \<open>filepath.Split\<close>.\<close>

definition filepath_Dir :: "string \<Rightarrow> string" where
  "filepath_Dir p = filepath_Clean (fst (filepath_Split p))"

text \<open>\<open>path.Base\<close>: the last element, after trailing slashes are removed.\<close>

definition path_Base :: "string \<Rightarrow> string" where
  "path_Base p =
     (if p = [] then ''.''
      else
        let p1 = rev (dropWhile (\<lambda>c. c = CHR ''/'') (rev p));
            p2 = rev (takeWhile (\<lambda>c. c \<noteq> CHR ''/'') (rev p1))
        in if p2 = [] then ''/'' else p2)"

section \<open>The build target\<close>

text \<open>
  What \<open>sanitize\<close> takes from the target: the value of \<open>runtime.GOOS\<close>, and
  \<open>filepath.Clean\<close> and \<open>filepath.ToSlash\<close>. The extractors take \<open>filepath.Join\<close>,
  \<open>filepath.Split\<close> and \<open>filepath.Dir\<close> as well.
\<close>

record platform =
  rt_GOOS :: string
  fp_Clean :: "string \<Rightarrow> string"
  fp_ToSlash :: "string \<Rightarrow> string"

record build = platform +
  fp_Join :: "string list \<Rightarrow> string"
  fp_Split :: "string \<Rightarrow> string \<times> string"
  fp_Dir :: "string \<Rightarrow> string"

text \<open>A build for a Unix-like target.\<close>

definition unix :: build where
  "unix =
     \<lparr> rt_GOOS = ''linux'', fp_Clean = filepath_Clean, fp_ToSlash = filepath_ToSlash,
       fp_Join = filepath_Join, fp_Split = filepath_Split, fp_Dir = filepath_Dir \<rparr>"

text \<open>
  On Windows the slash and the backslash (byte 0x5C) both separate elements, the result
  of \<open>filepath.Clean\<close> is written with backslashes, and a volume name at the start of
  the path is kept as it is. The model covers drive-letter volume names (\<open>C:\<close>); UNC
  volume names are left out. \<open>filepath.Clean\<close> cleans what follows the volume name as
  above, with both separators read as one.
\<close>

definition windows_volumeName :: "string \<Rightarrow> string" where
  "windows_volumeName p =
     (if length p \<ge> 2 \<and> p ! 1 = CHR '':''
         \<and> ((97::nat) \<le> of_char (p ! 0) \<and> (of_char (p ! 0) :: nat) \<le> 122
              \<or> (65::nat) \<le> of_char (p ! 0) \<and> (of_char (p ! 0) :: nat) \<le> 90)
      then take 2 p else [])"

definition windows_ToSlash :: "string \<Rightarrow> string" where
  "windows_ToSlash p = map (\<lambda>c. if c = CHR 0x5C then CHR ''/'' else c) p"

definition windows_FromSlash :: "string \<Rightarrow> string" where
  "windows_FromSlash p = map (\<lambda>c. if c = CHR ''/'' then CHR 0x5C else c) p"

definition windows_Clean :: "string \<Rightarrow> string" where
  "windows_Clean p =
     (let vol = windows_volumeName p;
          path = drop (length vol) p
      in vol @ windows_FromSlash (filepath_Clean (windows_ToSlash path)))"

definition windows :: platform where
  "windows = \<lparr> rt_GOOS = ''windows'', fp_Clean = windows_Clean, fp_ToSlash = windows_ToSlash \<rparr>"

section \<open>sanitize\<close>

text \<open>The loop \<open>for strings.HasPrefix(name, "../") { name = name[3:] }\<close>.\<close>

function sanitize_loop :: "string \<Rightarrow> string" where
  "sanitize_loop name =
     (if strings_HasPrefix name ''../'' then sanitize_loop (drop 3 name) else name)"
  by pat_completeness auto
termination
  by (relation "measure length") (auto simp: strings_HasPrefix_def prefix_def)

declare sanitize_loop.simps [simp del]

definition sanitize :: "'a platform_scheme \<Rightarrow> string \<Rightarrow> string" where
  "sanitize pf name =
     (let name1 = (if length name > 1 \<and> name ! 1 = CHR '':'' \<and> rt_GOOS pf = ''windows''
                   then drop 2 name else name);
          name2 = fp_Clean pf name1;
          name3 = fp_ToSlash pf name2
      in sanitize_loop name3)"

section \<open>Errors, streams and the collaborators of the package\<close>

type_synonym byte = "8 word"

text \<open>
  Go's \<open>error\<close> values that the package passes on, and the run-time panic of an
  out-of-range slice expression.
\<close>

datatype error =
    EOF
  | ErrBufferFull
  | ErrNegativeCount
  | Failure string
  | Panic string

text \<open>
  A stream (\<open>io.Reader\<close>): the bytes it delivers and the error that ends it, \<open>EOF\<close> for
  a regular end. A \<open>bufio.Reader\<close> made by \<open>bufio.NewReader\<close> delivers the same bytes
  through a buffer of 4096 bytes, so it is modelled by the same record.
\<close>

record reader =
  rd_data :: "byte list"
  rd_err :: error

definition bufio_NewReader :: "reader \<Rightarrow> reader" where
  "bufio_NewReader rd = rd"

definition bufio_size :: int where
  "bufio_size = 4096"

text \<open>
  \<open>(*bufio.Reader).Peek\<close>: the next \<open>n\<close> bytes without advancing the reader; the
  stream's error when fewer than \<open>n\<close> bytes are left, \<open>ErrBufferFull\<close> when \<open>n\<close> exceeds
  the buffer, \<open>ErrNegativeCount\<close> when \<open>n\<close> is negative.
\<close>

definition bufio_Peek :: "reader \<Rightarrow> int \<Rightarrow> error + byte list" where
  "bufio_Peek b n =
     (if n < 0 then Inl ErrNegativeCount
      else if n > bufio_size then Inl ErrBufferFull
      else if int (length (rd_data b)) < n then Inl (rd_err b)
      else Inr (take (nat n) (rd_data b)))"

text \<open>\<open>os.FileMode\<close> is a \<open>uint32\<close>; \<open>Perm\<close> keeps the nine permission bits (octal 777).\<close>

type_synonym FileMode = "32 word"

definition Perm :: "FileMode \<Rightarrow> FileMode" where
  "Perm m = m AND 511"

text \<open>
  An entry of the central directory as \<open>archive/zip\<close> presents it (\<open>*zip.File\<close>): the
  fields and method results that \<open>unzipFile\<close> reads. \<open>zf_IsDir\<close> is the value of
  \<open>f.FileInfo().IsDir()\<close>, \<open>zf_Open\<close> the result of \<open>f.Open()\<close>, \<open>zf_Close\<close> the result
  of closing that entry reader.
\<close>

record zip_File =
  zf_Name :: string
  zf_IsDir :: bool
  zf_Mode :: FileMode
  zf_ModTime :: int
  zf_UncompressedSize64 :: "64 word"
  zf_Open :: "error + reader"
  zf_Close :: "error option"

text \<open>
  A header as \<open>archive/tar\<close> presents it (\<open>*tar.Header\<close>); \<open>th_IsDir\<close> is the value of
  \<open>hdr.FileInfo().IsDir()\<close>. A parsed archive is the sequence of headers that \<open>tr.Next()\<close>
  returns, each with the body that reading \<open>tr\<close> delivers for it, and the error that
  ends the sequence (\<open>EOF\<close> at the end-of-archive mark).
\<close>

record tar_Header =
  th_Name :: string
  th_Mode :: "64 word"
  th_ModTime :: int
  th_IsDir :: bool

type_synonym tar_Reader = "(tar_Header \<times> reader) list \<times> error"

text \<open>
  The codec libraries are black boxes with a streaming interface: \<open>gzip.NewReader\<close> and
  \<open>xz.NewReader\<close> read the stream header and may reject it, \<open>bzip2.NewReader\<close> has no
  error result, \<open>zip.NewReader\<close> parses the central directory of a byte buffer,
  \<open>tar.NewReader\<close> wraps a stream.
\<close>

record libs =
  gzip_NewReader :: "reader \<Rightarrow> error + reader"
  bzip2_NewReader :: "reader \<Rightarrow> reader"
  xz_NewReader :: "reader \<Rightarrow> error + reader"
  zip_NewReader :: "byte list \<Rightarrow> error + zip_File list"
  tar_NewReader :: "reader \<Rightarrow> tar_Reader"

text \<open>
  The operating system is a collaborator too. Every call the package makes is recorded,
  in order, in a trace together with the lines it logs; the outcome of a call is given by
  the environment, which sees the trace so far. The access time passed to \<open>os.Chtimes\<close>
  is the wall clock and is left out of the record.
\<close>

datatype syscall =
    MkdirAll string FileMode
  | Lstat string
  | Create string
  | Chmod string FileMode
  | Chtimes string int
  | Write string "byte list"
  | Close string

datatype event =
    Sys syscall
  | LogPrintln error
  | LogWarnPermissions string error
  | LogWarnTimes string error

type_synonym world = "event list \<Rightarrow> syscall \<Rightarrow> error option"

definition os_call :: "world \<Rightarrow> syscall \<Rightarrow> event list \<Rightarrow> error option \<times> event list" where
  "os_call w c tr = (w tr c, tr @ [Sys c])"

text \<open>A deferred \<open>file.Close()\<close> whose error is logged.\<close>

definition close_logged :: "world \<Rightarrow> string \<Rightarrow> event list \<Rightarrow> event list" where
  "close_logged w name tr =
     (case os_call w (Close name) tr of
        (None, tr1) \<Rightarrow> tr1
      | (Some e, tr1) \<Rightarrow> tr1 @ [LogPrintln e])"

text \<open>\<open>file.Chmod\<close> and \<open>os.Chtimes\<close> as the extractors call them: a failure is logged.\<close>

definition chmod_logged :: "world \<Rightarrow> string \<Rightarrow> FileMode \<Rightarrow> event list \<Rightarrow> event list" where
  "chmod_logged w name m tr =
     (case os_call w (Chmod name m) tr of
        (None, tr1) \<Rightarrow> tr1
      | (Some e, tr1) \<Rightarrow> tr1 @ [LogWarnPermissions name e])"

definition chtimes_logged :: "world \<Rightarrow> string \<Rightarrow> int \<Rightarrow> event list \<Rightarrow> event list" where
  "chtimes_logged w name t tr =
     (case os_call w (Chtimes name t) tr of
        (None, tr1) \<Rightarrow> tr1
      | (Some e, tr1) \<Rightarrow> tr1 @ [LogWarnTimes name e])"

text \<open>
  \<open>io.Copy\<close> into a file: the bytes of the source are written; the result is the write
  error, else the source's error unless that is \<open>EOF\<close>.
\<close>

definition io_Copy :: "world \<Rightarrow> string \<Rightarrow> reader \<Rightarrow> event list \<Rightarrow> error option \<times> event list" where
  "io_Copy w name src tr =
     (let (werr, tr1) = (if rd_data src = [] then (None, tr)
                         else os_call w (Write name (rd_data src)) tr)
      in case werr of
           Some e \<Rightarrow> (Some e, tr1)
         | None \<Rightarrow> (if rd_err src = EOF then None else Some (rd_err src), tr1))"

text \<open>
  \<open>io.CopyN\<close>: \<open>io.Copy\<close> from a reader limited to \<open>n\<close> bytes; no error when \<open>n\<close> bytes
  were written, the source's error (\<open>EOF\<close> at a regular end) when fewer were.
\<close>

definition io_CopyN :: "world \<Rightarrow> string \<Rightarrow> reader \<Rightarrow> int \<Rightarrow> event list \<Rightarrow> error option \<times> event list" where
  "io_CopyN w name src n tr =
     (let lim = take (nat n) (rd_data src);
          (werr, tr1) = (if lim = [] then (None, tr)
                         else os_call w (Write name lim) tr)
      in case werr of
           Some e \<Rightarrow> (Some e, tr1)
         | None \<Rightarrow>
             (if int (length lim) = n then None
              else if int (length lim) < n then Some (rd_err src)
              else None, tr1))"

text \<open>\<open>ioutil.ReadAll\<close>: all bytes up to \<open>EOF\<close>, or the error that ended the stream.\<close>

definition ioutil_ReadAll :: "reader \<Rightarrow> error + byte list" where
  "ioutil_ReadAll r = (if rd_err r = EOF then Inr (rd_data r) else Inl (rd_err r))"

section \<open>Magic numbers\<close>

definition magicZIP :: "byte list" where
  "magicZIP = [0x50, 0x4b, 0x03, 0x04]"

definition magicGZ :: "byte list" where
  "magicGZ = [0x1f, 0x8b]"

definition magicBZIP :: "byte list" where
  "magicBZIP = [0x42, 0x5a]"

definition magicTAR :: "byte list" where
  "magicTAR = [0x75, 0x73, 0x74, 0x61, 0x72]"

definition magicXZ :: "byte list" where
  "magicXZ = [0xfd, 0x37, 0x7a, 0x58, 0x5a, 0x00]"

text \<open>
  \<open>magicNumber\<close>. A successful peek returns \<open>offset + 6\<close> bytes, so the slice
  \<open>headerBytes[offset : offset+6]\<close> is in range unless \<open>offset\<close> is negative, where the
  slice expression panics.
\<close>

definition magicNumber :: "reader \<Rightarrow> int \<Rightarrow> string \<times> error option" where
  "magicNumber reader offset =
     (case bufio_Peek reader (offset + 6) of
        Inl err \<Rightarrow> ([], Some err)
      | Inr headerBytes \<Rightarrow>
          if offset < 0 then ([], Some (Panic ''slice bounds out of range''))
          else
            let magic = take 6 (drop (nat offset) headerBytes) in
            if magicTAR = take 5 magic then (''tar'', None)
            else if magicZIP = take 4 magic then (''zip'', None)
            else if magicGZ = take 2 magic then (''gzip'', None)
            else if magicBZIP = take 2 magic then (''bzip'', None)
            else if magicXZ = magic then (''xz'', None)
            else ([], None))"

section \<open>Decompression wrappers\<close>

text \<open>The result \<open>(nil, err)\<close> is \<open>Inl err\<close>: no reader is returned with an error.\<close>

definition Bunzip2Stream :: "libs \<Rightarrow> reader \<Rightarrow> error + reader" where
  "Bunzip2Stream lib reader = Inr (bufio_NewReader (bzip2_NewReader lib reader))"

definition GunzipStream :: "libs \<Rightarrow> reader \<Rightarrow> error + reader" where
  "GunzipStream lib reader =
     (case gzip_NewReader lib reader of
        Inl err \<Rightarrow> Inl err
      | Inr decompressingReader \<Rightarrow> Inr (bufio_NewReader decompressingReader))"

definition UnxzStream :: "libs \<Rightarrow> reader \<Rightarrow> error + reader" where
  "UnxzStream lib reader =
     (case xz_NewReader lib reader of
        Inl err \<Rightarrow> Inl err
      | Inr decompressingReader \<Rightarrow> Inr (bufio_NewReader decompressingReader))"

section \<open>ZIP extraction\<close>

text \<open>
  \<open>unzipFile\<close>. The deferred calls run when the function returns, last deferred first:
  \<open>file.Close()\<close>, then \<open>rc.Close()\<close>, each logging its error.
\<close>

definition rc_close_logged :: "zip_File \<Rightarrow> event list \<Rightarrow> event list" where
  "rc_close_logged f tr = (case zf_Close f of None \<Rightarrow> tr | Some e \<Rightarrow> tr @ [LogPrintln e])"

definition unzipFile :: "world \<Rightarrow> build \<Rightarrow> zip_File \<Rightarrow> string \<Rightarrow> event list \<Rightarrow> error option \<times> event list" where
  "unzipFile w pf f destPath tr =
     (if zf_IsDir f then
        os_call w (MkdirAll (fp_Join pf [destPath, zf_Name f]) (Perm (zf_Mode f))) tr
      else
        case zf_Open f of
          Inl err \<Rightarrow> (Some err, tr)
        | Inr rc \<Rightarrow>
            let filePath = sanitize pf (zf_Name f);
                destPath1 = fp_Join pf [destPath, filePath];
                fileDir = fp_Dir pf destPath1;
                (lerr, tr1) = os_call w (Lstat fileDir) tr;
                (merr, tr2) = (if lerr \<noteq> None then os_call w (MkdirAll fileDir 448) tr1
                               else (None, tr1))
            in case merr of
                 Some err \<Rightarrow> (Some err, rc_close_logged f tr2)
               | None \<Rightarrow>
                   (case os_call w (Create destPath1) tr2 of
                      (Some err, tr3) \<Rightarrow> (Some err, rc_close_logged f tr3)
                    | (None, tr3) \<Rightarrow>
                        let tr4 = chmod_logged w destPath1 (zf_Mode f) tr3;
                            tr5 = chtimes_logged w destPath1 (zf_ModTime f) tr4;
                            (cerr, tr6) = io_CopyN w destPath1 rc
                                            (sint (zf_UncompressedSize64 f)) tr5
                        in (cerr, rc_close_logged f (close_logged w destPath1 tr6))))"

fun unpackZip :: "world \<Rightarrow> build \<Rightarrow> zip_File list \<Rightarrow> string \<Rightarrow> event list \<Rightarrow> (string \<times> error option) \<times> event list" where
  "unpackZip w pf [] destPath tr = ((destPath, None), tr)"
| "unpackZip w pf (f # fs) destPath tr =
     (case unzipFile w pf f destPath tr of
        (Some err, tr1) \<Rightarrow> (([], Some err), tr1)
      | (None, tr1) \<Rightarrow> unpackZip w pf fs destPath tr1)"

definition UnzipStream :: "world \<Rightarrow> build \<Rightarrow> libs \<Rightarrow> reader \<Rightarrow> string \<Rightarrow> event list \<Rightarrow> (string \<times> error option) \<times> event list" where
  "UnzipStream w pf lib r destPath tr =
     (case ioutil_ReadAll r of
        Inl err \<Rightarrow> (([], Some err), tr)
      | Inr data \<Rightarrow>
          (case zip_NewReader lib data of
             Inl err \<Rightarrow> (([], Some err), tr)
           | Inr zr \<Rightarrow> unpackZip w pf zr destPath tr))"

section \<open>TAR extraction\<close>

text \<open>\<open>os.FileMode(hdr.Mode)\<close> converts the header's \<open>int64\<close> to \<open>uint32\<close>.\<close>

definition untarFile :: "world \<Rightarrow> build \<Rightarrow> tar_Header \<Rightarrow> reader \<Rightarrow> string \<Rightarrow> string \<Rightarrow> event list \<Rightarrow> (string \<times> error option) \<times> event list" where
  "untarFile w pf hdr body fp rootdir tr =
     (let parentDir = fst (fp_Split pf fp) in
      case os_call w (MkdirAll parentDir 480) tr of
        (Some err, tr1) \<Rightarrow> ((rootdir, Some err), tr1)
      | (None, tr1) \<Rightarrow>
          (case os_call w (Create fp) tr1 of
             (Some err, tr2) \<Rightarrow> ((rootdir, Some err), tr2)
           | (None, tr2) \<Rightarrow>
               let tr3 = chmod_logged w fp (ucast (th_Mode hdr)) tr2;
                   tr4 = chtimes_logged w fp (th_ModTime hdr) tr3;
                   (cerr, tr5) = io_Copy w fp body tr4
               in ((rootdir, cerr), close_logged w fp tr5)))"

text \<open>
  The loop of \<open>Untar\<close> over the headers that \<open>tr.Next()\<close> returns; \<open>fin\<close> is the error
  that ends them.
\<close>

fun Untar_loop :: "world \<Rightarrow> build \<Rightarrow> string \<Rightarrow> (tar_Header \<times> reader) list \<Rightarrow> error \<Rightarrow> string \<Rightarrow> event list \<Rightarrow> (string \<times> error option) \<times> event list" where
  "Untar_loop w pf destPath [] fin rootdir tr =
     (if fin = EOF then ((rootdir, None), tr) else ((rootdir, Some fin), tr))"
| "Untar_loop w pf destPath ((hdr, body) # rest) fin rootdir tr =
     (if th_Name hdr = ''pax_global_header'' then Untar_loop w pf destPath rest fin rootdir tr
      else
        let fp = fp_Join pf [destPath, sanitize pf (th_Name hdr)] in
        if th_IsDir hdr then
          let rootdir1 = (if rootdir = destPath then fp else rootdir) in
          case os_call w (MkdirAll fp (ucast (th_Mode hdr))) tr of
            (Some err, tr1) \<Rightarrow> ((rootdir1, Some err), tr1)
          | (None, tr1) \<Rightarrow> Untar_loop w pf destPath rest fin rootdir1 tr1
        else
          case untarFile w pf hdr body fp rootdir tr of
            ((_, Some untarErr), tr1) \<Rightarrow> ((rootdir, Some untarErr), tr1)
          | ((_, None), tr1) \<Rightarrow> Untar_loop w pf destPath rest fin rootdir tr1)"

definition Untar :: "world \<Rightarrow> build \<Rightarrow> libs \<Rightarrow> reader \<Rightarrow> string \<Rightarrow> event list \<Rightarrow> (string \<times> error option) \<times> event list" where
  "Untar w pf lib data destPath tr =
     (case os_call w (MkdirAll destPath 480) tr of
        (Some err, tr1) \<Rightarrow> (([], Some err), tr1)
      | (None, tr1) \<Rightarrow>
          (case tar_NewReader lib data of
             (entries, fin) \<Rightarrow> Untar_loop w pf destPath entries fin destPath tr1))"

section \<open>The pipeline\<close>

text \<open>
  \<open>UnpackStream\<close> after its \<open>switch\<close>: the second sniff at offset 257, the TAR
  extractor, or the stream saved as it is.
\<close>

definition UnpackStream_rest :: "world \<Rightarrow> build \<Rightarrow> libs \<Rightarrow> reader \<Rightarrow> string \<Rightarrow> event list \<Rightarrow> (string \<times> error option) \<times> event list" where
  "UnpackStream_rest w pf lib decompressingReader destPath tr =
     (case magicNumber decompressingReader 257 of
        (_, Some err) \<Rightarrow> (([], Some err), tr)
      | (ftype, None) \<Rightarrow>
          if ftype = ''tar'' then Untar w pf lib decompressingReader destPath tr
          else
            let destRawFile = fp_Join pf [destPath, sanitize pf (path_Base ''unknown-pack'')] in
            case os_call w (Create destRawFile) tr of
              (Some err, tr1) \<Rightarrow> (([], Some err), tr1)
            | (None, tr1) \<Rightarrow>
                (case io_Copy w destRawFile decompressingReader tr1 of
                   (Some err, tr2) \<Rightarrow> (([], Some err), close_logged w destRawFile tr2)
                 | (None, tr2) \<Rightarrow> ((destPath, None), close_logged w destRawFile tr2)))"

definition UnpackStream :: "world \<Rightarrow> build \<Rightarrow> libs \<Rightarrow> reader \<Rightarrow> string \<Rightarrow> event list \<Rightarrow> (string \<times> error option) \<times> event list" where
  "UnpackStream w pf lib reader destPath tr =
     (let r = bufio_NewReader reader in
      case magicNumber r 0 of
        (_, Some err) \<Rightarrow> (([], Some err), tr)
      | (ftype, None) \<Rightarrow>
          if ftype = ''gzip'' then
            (case GunzipStream lib r of
               Inl err \<Rightarrow> (([], Some err), tr)
             | Inr decompressingReader \<Rightarrow> UnpackStream_rest w pf lib decompressingReader destPath tr)
          else if ftype = ''xz'' then
            (case UnxzStream lib r of
               Inl err \<Rightarrow> (([], Some err), tr)
             | Inr decompressingReader \<Rightarrow> UnpackStream_rest w pf lib decompressingReader destPath tr)
          else if ftype = ''bzip'' then
            (case Bunzip2Stream lib r of
               Inl err \<Rightarrow> (([], Some err), tr)
             | Inr decompressingReader \<Rightarrow> UnpackStream_rest w pf lib decompressingReader destPath tr)
          else if ftype = ''zip'' then UnzipStream w pf lib r destPath tr
          else UnpackStream_rest w pf lib r destPath tr)"

section \<open>Notions used to state the properties\<close>

text \<open>
  The sniffer as the specification words it: the signatures in their order of precedence,
  each with its tag; the tag of a window is that of the first signature the window
  starts with, and the empty (unknown) tag when there is none.
\<close>

definition signatures :: "(byte list \<times> string) list" where
  "signatures =
     [([0x75, 0x73, 0x74, 0x61, 0x72], ''tar''),
      ([0x50, 0x4b, 0x03, 0x04], ''zip''),
      ([0x1f, 0x8b], ''gzip''),
      ([0x42, 0x5a], ''bzip''),
      ([0xfd, 0x37, 0x7a, 0x58, 0x5a, 0x00], ''xz'')]"

definition sniff_window :: "byte list \<Rightarrow> string" where
  "sniff_window window =
     (case find (\<lambda>(sig, tag). prefix sig window) signatures of
        Some (sig, tag) \<Rightarrow> tag
      | None \<Rightarrow> [])"

text \<open>The operating-system calls of a trace, without the log lines.\<close>

fun syscalls :: "event list \<Rightarrow> syscall list" where
  "syscalls [] = []"
| "syscalls (Sys c # es) = c # syscalls es"
| "syscalls (_ # es) = syscalls es"

text \<open>
  The resolved paths of the directory entries of a TAR archive, in archive order, and the
  first of them that differs from the destination path (the destination path when there is
  none).
\<close>

definition dir_paths :: "build \<Rightarrow> string \<Rightarrow> (tar_Header \<times> reader) list \<Rightarrow> string list" where
  "dir_paths pf destPath entries =
     map (\<lambda>(hdr, body). fp_Join pf [destPath, sanitize pf (th_Name hdr)])
       (filter (\<lambda>(hdr, body). th_Name hdr \<noteq> ''pax_global_header'' \<and> th_IsDir hdr) entries)"

definition first_dir :: "build \<Rightarrow> string \<Rightarrow> (tar_Header \<times> reader) list \<Rightarrow> string" where
  "first_dir pf destPath entries =
     (case find (\<lambda>fp. fp \<noteq> destPath) (dir_paths pf destPath entries) of
        None \<Rightarrow> destPath
      | Some fp \<Rightarrow> fp)"

text \<open>
  The modification time a file is left with by the calls of a trace on which every call
  succeeded: creating the file and writing to it stamp it with the time of that call,
  \<open>os.Chtimes\<close> sets the time it is given.
\<close>

datatype mtime = TimeOfCall | TimeSet int

fun mtime_after :: "syscall list \<Rightarrow> string \<Rightarrow> mtime option" where
  "mtime_after [] name = None"
| "mtime_after (c # cs) name =
     (case mtime_after cs name of
        Some t \<Rightarrow> Some t
      | None \<Rightarrow>
          (case c of
             Create n \<Rightarrow> (if n = name then Some TimeOfCall else None)
           | Write n bs \<Rightarrow> (if n = name then Some TimeOfCall else None)
           | Chtimes n t \<Rightarrow> (if n = name then Some (TimeSet t) else None)
           | _ \<Rightarrow> None))"

text \<open>An operating system on which every call succeeds.\<close>

definition os_ok :: world where
  "os_ok tr c = None"

text \<open>An operating system that refuses to change permissions and times, and nothing else.\<close>

definition os_no_metadata :: world where
  "os_no_metadata tr c =
     (case c of
        Chmod name m \<Rightarrow> Some (Failure ''operation not permitted'')
      | Chtimes name t \<Rightarrow> Some (Failure ''operation not permitted'')
      | _ \<Rightarrow> None)"

text \<open>
  Libraries that find every stream header malformed, with a given parsed TAR archive: the
  constructors that have an error result return it, and the bzip2 reader, whose
  constructor has none, reports the error when it is read.
\<close>

definition rejecting_libs :: "tar_Reader \<Rightarrow> libs" where
  "rejecting_libs tar =
     \<lparr> gzip_NewReader = (\<lambda>r. Inl (Failure ''gzip: invalid header'')),
       bzip2_NewReader = (\<lambda>r. \<lparr> rd_data = [], rd_err = Failure ''bzip2 data invalid: bad magic value'' \<rparr>),
       xz_NewReader = (\<lambda>r. Inl (Failure ''xz: invalid header magic bytes'')),
       zip_NewReader = (\<lambda>data. Inl (Failure ''zip: not a valid zip file'')),
       tar_NewReader = (\<lambda>r. tar) \<rparr>"

text \<open>
  The shape of a cleaned path: an ordinary element is a non-empty name without slash other
  than \<open>.\<close> and \<open>..\<close>; the stack of \<open>cleanStep\<close> holds ordinary elements above a run of
  \<open>..\<close> elements, and no \<open>..\<close> in a rooted path.
\<close>

definition normalElem :: "string \<Rightarrow> bool" where
  "normalElem e \<longleftrightarrow> e \<noteq> [] \<and> CHR ''/'' \<notin> set e \<and> e \<noteq> ''.'' \<and> e \<noteq> ''..''"

definition stackOK :: "bool \<Rightarrow> string list \<Rightarrow> bool" where
  "stackOK rooted stk \<longleftrightarrow>
     (\<exists>ns k. stk = ns @ replicate k ''..'' \<and> (\<forall>e\<in>set ns. normalElem e) \<and> (rooted \<longrightarrow> k = 0))"

definition sanitizedForm :: "string \<Rightarrow> bool" where
  "sanitizedForm s \<longleftrightarrow>
     s = ''.'' \<or> s = ''..''
     \<or> (\<exists>ns. ns \<noteq> [] \<and> (\<forall>e\<in>set ns. normalElem e) \<and> s = joinSlash ns)
     \<or> (\<exists>ns. (\<forall>e\<in>set ns. normalElem e) \<and> s = CHR ''/'' # joinSlash ns)"

text \<open>
  A path lies inside a root when both are rooted or both are relative, the elements of
  the cleaned root begin the elements of the cleaned path, and no \<open>..\<close> follows them.
\<close>

definition rootedPath :: "string \<Rightarrow> bool" where
  "rootedPath p \<longleftrightarrow> p \<noteq> [] \<and> hd p = CHR ''/''"

definition pathElems :: "string \<Rightarrow> string list" where
  "pathElems p = rev (foldl (cleanStep (rootedPath p)) [] (splitSlash p))"

definition inside :: "string \<Rightarrow> string \<Rightarrow> bool" where
  "inside root p \<longleftrightarrow>
     rootedPath root = rootedPath p
     \<and> prefix (pathElems root) (pathElems p)
     \<and> ''..'' \<notin> set (drop (length (pathElems root)) (pathElems p))"

section \<open>Concrete inputs\<close>

text \<open>A TAR archive with two top-level directories, \<open>a/\<close> holding one file, and \<open>b/\<close>.\<close>

definition two_roots :: tar_Reader where
  "two_roots =
     ([(\<lparr> th_Name = ''a/'', th_Mode = 493, th_ModTime = 0, th_IsDir = True \<rparr>,
        \<lparr> rd_data = [], rd_err = EOF \<rparr>),
       (\<lparr> th_Name = ''a/x.txt'', th_Mode = 420, th_ModTime = 0, th_IsDir = False \<rparr>,
        \<lparr> rd_data = [0x68, 0x69], rd_err = EOF \<rparr>),
       (\<lparr> th_Name = ''b/'', th_Mode = 493, th_ModTime = 0, th_IsDir = True \<rparr>,
        \<lparr> rd_data = [], rd_err = EOF \<rparr>)], EOF)"

text \<open>A regular file entry of a ZIP archive: three bytes, mode 0644.\<close>

definition small_file :: zip_File where
  "small_file =
     \<lparr> zf_Name = ''docs/a.txt'', zf_IsDir = False, zf_Mode = 420, zf_ModTime = 1600000000,
       zf_UncompressedSize64 = 3,
       zf_Open = Inr \<lparr> rd_data = [0x61, 0x62, 0x63], rd_err = EOF \<rparr>, zf_Close = None \<rparr>"

text \<open>Ten bytes of text: no signature at offset 0, and too short for a peek of 263 bytes.\<close>

definition short_stream :: reader where
  "short_stream = \<lparr> rd_data = [0x68, 0x65, 0x6c, 0x6c, 0x6f, 0x20, 0x77, 0x6f, 0x72, 0x6c], rd_err = EOF \<rparr>"

text \<open>Three hundred spaces: no signature at offset 0 and none at offset 257.\<close>

definition blank_stream :: reader where
  "blank_stream = \<lparr> rd_data = replicate 300 0x20, rd_err = EOF \<rparr>"

text \<open>A 512-byte block with the TAR signature at offset 257 and zeros elsewhere.\<close>

definition tar_block :: reader where
  "tar_block = \<lparr> rd_data = replicate 257 0x00 @ [0x75, 0x73, 0x74, 0x61, 0x72, 0x00] @ replicate 249 0x00,
                  rd_err = EOF \<rparr>"

section \<open>Properties of sanitize\<close>

text \<open>
  The model of \<open>filepath.Clean\<close> on the examples of the Go library's own test table for
  slash-separated paths.
\<close>

lemma filepath_Clean_examples:
  "map filepath_Clean
     ['''', ''abc'', ''abc/def'', ''.'', ''..'', ''../..'', ''../../abc'', ''/abc'', ''/'',
      ''abc/'', ''./'', ''../'', ''../../'', ''/abc/'', ''abc//def//ghi'', ''//abc'', ''///abc'',
      ''//abc//'', ''abc//'', ''abc/./def'', ''/./abc/def'', ''abc/.'', ''abc/def/ghi/../jkl'',
      ''abc/def/../ghi/../jkl'', ''abc/def/..'', ''abc/def/../..'', ''/abc/def/../..'',
      ''abc/def/../../..'', ''/abc/def/../../..'', ''abc/def/../../../ghi/jkl/../../../mno'',
      ''abc/./../def'', ''abc//./../def'', ''abc/../../././../def'']
   = [''.'', ''abc'', ''abc/def'', ''.'', ''..'', ''../..'', ''../../abc'', ''/abc'', ''/'',
      ''abc'', ''.'', ''..'', ''../..'', ''/abc'', ''abc/def/ghi'', ''/abc'', ''/abc'',
      ''/abc'', ''abc'', ''abc/def'', ''/abc/def'', ''abc'', ''abc/def/jkl'',
      ''abc/jkl'', ''abc'', ''.'', ''/'',
      ''..'', ''/'', ''../../mno'',
      ''def'', ''def'', ''../../def'']"
  by code_simp

lemma splitSlash_nonempty: "splitSlash s \<noteq> []"
  by (induction s) (auto split: list.splits)

lemma splitSlash_append:
  "CHR ''/'' \<notin> set x \<Longrightarrow> splitSlash (x @ CHR ''/'' # r) = x # splitSlash r"
  by (induction x) (auto split: list.splits)

lemma splitSlash_single: "CHR ''/'' \<notin> set x \<Longrightarrow> splitSlash x = [x]"
  by (induction x) (auto split: list.splits)

lemma splitSlash_joinSlash:
  "es \<noteq> [] \<Longrightarrow> \<forall>e\<in>set es. CHR ''/'' \<notin> set e \<Longrightarrow> splitSlash (joinSlash es) = es"
  by (induction es rule: joinSlash.induct) (auto simp: splitSlash_append splitSlash_single)

lemma splitSlash_no_slash: "e \<in> set (splitSlash s) \<Longrightarrow> CHR ''/'' \<notin> set e"
  by (induction s arbitrary: e) (auto split: list.splits if_splits)

lemma stackOK_step:
  assumes "stackOK rooted stk" "CHR ''/'' \<notin> set e"
  shows "stackOK rooted (cleanStep rooted stk e)"
proof -
  from assms(1) obtain ns k where stk: "stk = ns @ replicate k ''..''"
    and ns: "\<forall>e\<in>set ns. normalElem e" and k: "rooted \<longrightarrow> k = 0"
    by (auto simp: stackOK_def)
  consider "e = [] \<or> e = ''.''" | "e = ''..''" | "normalElem e"
    using assms(2) by (auto simp: normalElem_def)
  then show ?thesis
  proof cases
    case 1
    then show ?thesis using assms(1) by auto
  next
    case 2
    show ?thesis
    proof (cases ns)
      case Nil
      show ?thesis
      proof (cases k)
        case 0
        with Nil stk 2 k have "cleanStep rooted stk e = (if rooted then [] @ replicate 0 ''..'' else [] @ replicate (Suc 0) ''..'')"
          by auto
        then show ?thesis unfolding stackOK_def by (metis empty_iff list.set(1))
      next
        case (Suc j)
        with Nil stk 2 k have "cleanStep rooted stk e = [] @ replicate (Suc (Suc j)) ''..''" "\<not> rooted"
          by auto
        then show ?thesis unfolding stackOK_def by (metis empty_iff list.set(1))
      qed
    next
      case (Cons t ts)
      with ns have "t \<noteq> ''..''" by (auto simp: normalElem_def)
      with Cons stk 2 have "cleanStep rooted stk e = ts @ replicate k ''..''" by auto
      with Cons ns k show ?thesis unfolding stackOK_def by auto
    qed
  next
    case 3
    then have "cleanStep rooted stk e = (e # ns) @ replicate k ''..''"
      using stk by (auto simp: normalElem_def)
    with 3 ns k show ?thesis unfolding stackOK_def by (metis set_ConsD)
  qed
qed

lemma stackOK_foldl:
  "stackOK rooted stk \<Longrightarrow> \<forall>e\<in>set es. CHR ''/'' \<notin> set e \<Longrightarrow>
   stackOK rooted (foldl (cleanStep rooted) stk es)"
  by (induction es arbitrary: stk) (auto simp del: cleanStep.simps intro: stackOK_step)

lemma stackOK_clean: "stackOK rooted (foldl (cleanStep rooted) [] (splitSlash p))"
  by (rule stackOK_foldl) (auto simp: stackOK_def splitSlash_no_slash)

lemma foldl_normal:
  "\<forall>e\<in>set ns. normalElem e \<Longrightarrow> foldl (cleanStep rooted) stk ns = rev ns @ stk"
  by (induction ns arbitrary: stk) (auto simp: normalElem_def)

lemma normal_no_dotdot_prefix:
  assumes "normalElem e"
  shows "\<not> prefix ''../'' (joinSlash (e # r))"
proof (cases e)
  case Nil
  with assms show ?thesis by (simp add: normalElem_def)
next
  case (Cons a e1)
  show ?thesis
  proof (cases e1)
    case Nil
    with Cons assms show ?thesis by (cases r) (auto simp: normalElem_def)
  next
    case (Cons b e2)
    with \<open>e = a # e1\<close> assms show ?thesis
      by (cases r; cases e2) (auto simp: normalElem_def)
  qed
qed

lemma loop_fixed: "\<not> prefix ''../'' s \<Longrightarrow> sanitize_loop s = s"
  by (subst sanitize_loop.simps) (simp add: strings_HasPrefix_def)

lemma loop_normal:
  "\<forall>e\<in>set ns. normalElem e \<Longrightarrow> sanitize_loop (joinSlash ns) = joinSlash ns"
  by (cases ns) (auto intro!: loop_fixed normal_no_dotdot_prefix)

lemma loop_dotdots:
  assumes "\<forall>e\<in>set ns. normalElem e"
  shows "sanitize_loop (joinSlash (replicate k ''..'' @ ns)) =
         (if ns = [] \<and> 0 < k then ''..'' else joinSlash ns)"
proof (induction k)
  case 0
  then show ?case using assms by (simp add: loop_normal)
next
  case (Suc k)
  show ?case
  proof (cases "replicate k ''..'' @ ns")
    case Nil
    then show ?thesis by (simp add: loop_fixed)
  next
    case (Cons y ys)
    then have "joinSlash (replicate (Suc k) ''..'' @ ns) = ''../'' @ joinSlash (replicate k ''..'' @ ns)"
      by simp
    then have "sanitize_loop (joinSlash (replicate (Suc k) ''..'' @ ns)) =
               sanitize_loop (joinSlash (replicate k ''..'' @ ns))"
      by (subst sanitize_loop.simps) (simp add: strings_HasPrefix_def)
    with Suc Cons show ?thesis by (cases k) auto
  qed
qed

lemma sanitize_slash:
  assumes "rt_GOOS pf \<noteq> ''windows''" and "fp_Clean pf = filepath_Clean"
      and "fp_ToSlash pf = filepath_ToSlash"
  shows "sanitize pf p = sanitize_loop (filepath_Clean p)"
  using assms by (simp add: sanitize_def filepath_ToSlash_def)

lemma sanitize_unfold: "sanitize unix p = sanitize_loop (filepath_Clean p)"
  by (rule sanitize_slash) (simp_all add: unix_def)

lemma sanitize_form: "sanitizedForm (sanitize unix p)"
proof (cases "p = []")
  case True
  then show ?thesis
    by (simp add: sanitize_unfold filepath_Clean_def loop_fixed sanitizedForm_def)
next
  case False
  define rooted where "rooted = (hd p = CHR ''/'')"
  define stk where "stk = foldl (cleanStep rooted) [] (splitSlash p)"
  have "stackOK rooted stk" unfolding stk_def by (rule stackOK_clean)
  then obtain ns k where stk: "stk = ns @ replicate k ''..''"
    and ns: "\<forall>e\<in>set ns. normalElem e" and k: "rooted \<longrightarrow> k = 0"
    by (auto simp: stackOK_def)
  have rns: "\<forall>e\<in>set (rev ns). normalElem e" using ns by simp
  have clean: "filepath_Clean p =
      (if rooted then CHR ''/'' # joinSlash (rev stk)
       else if rev stk = [] then ''.'' else joinSlash (rev stk))"
    using False by (simp add: filepath_Clean_def Let_def rooted_def stk_def)
  show ?thesis
  proof (cases rooted)
    case True
    with k stk have "rev stk = rev ns" by simp
    with True have "filepath_Clean p = CHR ''/'' # joinSlash (rev ns)"
      by (simp add: clean)
    moreover have "sanitize_loop (CHR ''/'' # joinSlash (rev ns)) = CHR ''/'' # joinSlash (rev ns)"
      by (rule loop_fixed) simp
    ultimately show ?thesis using rns unfolding sanitizedForm_def sanitize_unfold by metis
  next
    case nr: False
    have out: "rev stk = replicate k ''..'' @ rev ns" using stk by simp
    show ?thesis
    proof (cases "rev stk = []")
      case True
      with nr show ?thesis
        by (simp add: sanitize_unfold clean loop_fixed sanitizedForm_def)
    next
      case ne: False
      with nr have "filepath_Clean p = joinSlash (replicate k ''..'' @ rev ns)"
        by (simp add: clean out)
      then have "sanitize unix p = (if rev ns = [] \<and> 0 < k then ''..'' else joinSlash (rev ns))"
        using loop_dotdots[OF rns] by (simp add: sanitize_unfold)
      moreover have "rev ns = [] \<Longrightarrow> 0 < k" using ne out by auto
      ultimately show ?thesis using rns unfolding sanitizedForm_def by (cases "rev ns = []") auto
    qed
  qed
qed

lemma normal_hd: "normalElem e \<Longrightarrow> joinSlash (e # r) \<noteq> [] \<and> hd (joinSlash (e # r)) \<noteq> CHR ''/''"
  by (cases e; cases r) (auto simp: normalElem_def)


lemma sanitizedForm_nonempty: "sanitizedForm s \<Longrightarrow> s \<noteq> []"
  unfolding sanitizedForm_def using normal_hd by (auto simp: neq_Nil_conv)

lemma no_prefix: "\<not> strings_HasPrefix (sanitize_loop s) ''../''"
  by (induction s rule: sanitize_loop.induct) (subst sanitize_loop.simps, auto)

lemma splitSlash_app: "splitSlash (a @ CHR ''/'' # b) = splitSlash a @ splitSlash b"
proof (induction a)
  case Nil
  then show ?case by simp
next
  case (Cons c a)
  obtain w ws where "splitSlash a = w # ws"
    using splitSlash_nonempty[of a] by (cases "splitSlash a") auto
  with Cons show ?case by simp
qed

lemma foldl_dotdots:
  "foldl (cleanStep False) (replicate j ''..'') (replicate k ''..'') = replicate (k + j) ''..''"
proof (induction k arbitrary: j)
  case 0
  then show ?case by simp
next
  case (Suc k)
  have "cleanStep False (replicate j ''..'') ''..'' = replicate (Suc j) ''..''"
    by (cases j) auto
  with Suc[of "Suc j"] show ?case by (simp del: cleanStep.simps)
qed

lemma clean_render:
  "filepath_Clean p =
     (if rootedPath p then CHR ''/'' # joinSlash (pathElems p)
      else if pathElems p = [] then ''.'' else joinSlash (pathElems p))"
  by (cases p) (auto simp: filepath_Clean_def pathElems_def rootedPath_def Let_def)

lemma pathElems_shape:
  "\<exists>ns k. pathElems p = replicate k ''..'' @ ns \<and> (\<forall>e\<in>set ns. normalElem e)
      \<and> (rootedPath p \<longrightarrow> k = 0)"
proof -
  have "stackOK (rootedPath p) (foldl (cleanStep (rootedPath p)) [] (splitSlash p))"
    by (rule stackOK_clean)
  then obtain ns k where "foldl (cleanStep (rootedPath p)) [] (splitSlash p) = ns @ replicate k ''..''"
    "\<forall>e\<in>set ns. normalElem e" "rootedPath p \<longrightarrow> k = 0"
    by (auto simp: stackOK_def)
  then have "pathElems p = replicate k ''..'' @ rev ns \<and> (\<forall>e\<in>set (rev ns). normalElem e)
      \<and> (rootedPath p \<longrightarrow> k = 0)"
    by (simp add: pathElems_def)
  then show ?thesis by (intro exI[of _ "rev ns"] exI[of _ k])
qed

lemma elems_no_slash:
  assumes "es = replicate k ''..'' @ ns" "\<forall>e\<in>set ns. normalElem e"
  shows "\<forall>e\<in>set es. CHR ''/'' \<notin> set e"
proof
  fix e assume "e \<in> set es"
  then consider "e = ''..''" | "e \<in> set ns" using assms(1) by auto
  then show "CHR ''/'' \<notin> set e"
  proof cases
    case 1
    then show ?thesis by simp
  next
    case 2
    with assms(2) show ?thesis by (simp add: normalElem_def)
  qed
qed

lemma pathElems_of_rendered:
  assumes es: "es = replicate k ''..'' @ ns" and ns: "\<forall>e\<in>set ns. normalElem e"
  shows "es \<noteq> [] \<Longrightarrow> pathElems (joinSlash es) = es \<and> \<not> rootedPath (joinSlash es)"
    and "k = 0 \<Longrightarrow> pathElems (CHR ''/'' # joinSlash es) = es"
proof -
  have ns_sl: "\<forall>e\<in>set es. CHR ''/'' \<notin> set e" using es ns by (rule elems_no_slash)
  have fold_rel: "foldl (cleanStep False) [] es = rev ns @ replicate k ''..''"
    using foldl_dotdots[of 0 k] foldl_normal[OF ns, of False "replicate k ''..''"]
    by (simp add: es del: cleanStep.simps)
  {
    assume ne: "es \<noteq> []"
    then obtain e r where er: "es = e # r" by (cases es) auto
    have "e = ''..'' \<or> normalElem e"
      using es ns er by (cases k) auto
    then have hd: "joinSlash es \<noteq> [] \<and> hd (joinSlash es) \<noteq> CHR ''/''"
      unfolding er using normal_hd[of e r] by (cases r) auto
    then have nr: "\<not> rootedPath (joinSlash es)" by (simp add: rootedPath_def)
    have "splitSlash (joinSlash es) = es" using ne ns_sl by (rule splitSlash_joinSlash)
    with nr fold_rel have "pathElems (joinSlash es) = es"
      by (simp add: pathElems_def es)
    with nr show "pathElems (joinSlash es) = es \<and> \<not> rootedPath (joinSlash es)" by simp
  }
  {
    assume k0: "k = 0"
    have sp: "splitSlash (CHR ''/'' # joinSlash es) = [] # (if es = [] then [[]] else es)"
      using ns_sl by (simp add: splitSlash_joinSlash)
    have "es = ns" using k0 es by simp
    then have "foldl (cleanStep True) [] ([] # (if es = [] then [[]] else es)) = rev es"
      using foldl_normal[OF ns, of True "[]"] by simp
    then have "foldl (cleanStep True) [] (splitSlash (CHR ''/'' # joinSlash es)) = rev es"
      by (simp only: sp)
    then show "pathElems (CHR ''/'' # joinSlash es) = es"
      by (simp add: pathElems_def rootedPath_def)
  }
qed

lemma pathElems_Clean:
  "pathElems (filepath_Clean p) = pathElems p \<and> rootedPath (filepath_Clean p) = rootedPath p"
proof -
  obtain ns k where sh: "pathElems p = replicate k ''..'' @ ns" "\<forall>e\<in>set ns. normalElem e"
    "rootedPath p \<longrightarrow> k = 0"
    using pathElems_shape by blast
  show ?thesis
  proof (cases "rootedPath p")
    case True
    with sh have "k = 0" by simp
    from pathElems_of_rendered(2)[OF sh(1,2) this] True show ?thesis
      by (simp add: clean_render) (simp add: rootedPath_def)
  next
    case False
    show ?thesis
    proof (cases "pathElems p = []")
      case True
      with False show ?thesis
        by (simp add: clean_render) (simp add: pathElems_def rootedPath_def)
    next
      case ne: False
      from pathElems_of_rendered(1)[OF sh(1,2) ne] False ne show ?thesis
        by (simp add: clean_render)
    qed
  qed
qed

lemma fold_sanitized:
  assumes "sanitizedForm s" "s \<noteq> ''..''"
  shows "\<exists>ns. (\<forall>e\<in>set ns. normalElem e) \<and> (\<forall>stk r. foldl (cleanStep r) stk (splitSlash s) = rev ns @ stk)"
proof -
  consider "s = ''.''"
    | ns where "ns \<noteq> []" "\<forall>e\<in>set ns. normalElem e" "s = joinSlash ns"
    | ns where "\<forall>e\<in>set ns. normalElem e" "s = CHR ''/'' # joinSlash ns"
    using assms unfolding sanitizedForm_def by blast
  then show ?thesis
  proof cases
    case 1
    then have "\<forall>stk r. foldl (cleanStep r) stk (splitSlash s) = rev [] @ stk" by simp
    then show ?thesis by (metis empty_iff list.set(1))
  next
    case 2
    then have "splitSlash s = ns" by (simp add: splitSlash_joinSlash normalElem_def)
    with foldl_normal[OF 2(2)] 2(2) show ?thesis by auto
  next
    case 3
    then have "splitSlash s = [] # (if ns = [] then [[]] else ns)"
      by (simp add: splitSlash_joinSlash normalElem_def)
    then have "\<forall>stk r. foldl (cleanStep r) stk (splitSlash s) = rev ns @ stk"
      using foldl_normal[OF 3(1)] by simp
    with 3(1) show ?thesis by blast
  qed
qed

text \<open>
  Whatever the target and the cleaned path are, the result of the loop, and so of
  \<open>sanitize\<close>, does not begin with \<open>../\<close>.
\<close>

lemma sanitize_no_dotdot_slash: "\<not> strings_HasPrefix (sanitize pf P) ''../''"
  unfolding sanitize_def Let_def by (rule no_prefix)

text \<open>
  On a Unix-like target, joined with a non-empty destination root, every sanitized path
  other than \<open>..\<close> lies inside the root.
\<close>

lemma sanitize_inside_unless_dotdot:
  assumes "sanitize unix P \<noteq> ''..''" and "dest \<noteq> []"
  shows "inside dest (filepath_Join [dest, sanitize unix P])"
proof -
  define s where "s = sanitize unix P"
  define x where "x = dest @ CHR ''/'' # s"
  have "sanitizedForm s" unfolding s_def by (rule sanitize_form)
  with assms(1) obtain ns where ns: "\<forall>e\<in>set ns. normalElem e"
    and fold: "\<And>stk r. foldl (cleanStep r) stk (splitSlash s) = rev ns @ stk"
    using fold_sanitized[of s] unfolding s_def by blast
  have rx: "rootedPath x = rootedPath dest"
    using assms(2) by (cases dest) (auto simp: rootedPath_def x_def)
  have "pathElems x = pathElems dest @ ns"
    by (simp add: pathElems_def rx) (simp add: x_def splitSlash_app fold)
  moreover have "filepath_Join [dest, sanitize unix P] = filepath_Clean x"
    using assms(2) by (simp add: x_def s_def)
  ultimately have "pathElems (filepath_Join [dest, sanitize unix P]) = pathElems dest @ ns"
    and "rootedPath (filepath_Join [dest, sanitize unix P]) = rootedPath dest"
    using pathElems_Clean[of x] rx by simp_all
  moreover have "''..'' \<notin> set ns" using ns by (auto simp: normalElem_def)
  ultimately show ?thesis by (simp add: inside_def)
qed

text \<open>
  C1 (the code departs from it). \<open>sanitize\<close> never returns a path that begins with
  \<open>../\<close>, but the loop removes \<open>../\<close> only: the path \<open>..\<close> comes back unchanged, and
  joined with the destination root \<open>/tmp/out\<close> it is \<open>/tmp\<close>, the parent of the root and
  not a path inside it.
\<close>

theorem sanitize_dotdot_escapes:
  "sanitize unix ''..'' = ''..''
   \<and> filepath_Join [''/tmp/out'', sanitize unix ''..''] = ''/tmp''
   \<and> \<not> inside ''/tmp/out'' (filepath_Join [''/tmp/out'', sanitize unix ''..''])"
  by code_simp




text \<open>
  C9. The table of the specification: \<open>sanitize\<close> maps each of the five inputs to the
  stated output.
\<close>

theorem sanitize_table:
  "sanitize unix ''../../.././etc/passwd'' = ''etc/passwd''
   \<and> sanitize unix ''./etc/passwd'' = ''etc/passwd''
   \<and> sanitize unix ''a/b/c/../d'' = ''a/b/d''
   \<and> sanitize unix ''a/../../c'' = ''c''
   \<and> sanitize unix ''...../etc/password'' = ''...../etc/password''"
  by code_simp

text \<open>
  C10. \<open>sanitize\<close> never returns the empty string; the empty path, \<open>.\<close> and \<open>a/..\<close>,
  which normalise away entirely, give \<open>.\<close>.
\<close>

theorem sanitize_nonempty:
  "sanitize unix P \<noteq> [] \<and> sanitize unix [] = ''.'' \<and> sanitize unix ''.'' = ''.''
   \<and> sanitize unix ''a/..'' = ''.''"
proof -
  have "sanitize unix P \<noteq> []"
    by (rule sanitizedForm_nonempty) (rule sanitize_form)
  moreover have "sanitize unix [] = ''.''" "sanitize unix ''.'' = ''.''"
    "sanitize unix ''a/..'' = ''.''"
    by code_simp+
  ultimately show ?thesis by simp
qed

subsection \<open>sanitize with the drive-prefix branch taken\<close>

text \<open>
  With the functions for slash-separated paths the result is never empty, whatever the
  value of \<open>runtime.GOOS\<close>, that is, also when a drive prefix is removed first.
\<close>

lemma sanitize_nonempty_any_goos:
  assumes "fp_Clean pf = filepath_Clean" and "fp_ToSlash pf = filepath_ToSlash"
  shows "sanitize pf P \<noteq> []"
proof -
  obtain Q where "sanitize pf P = sanitize_loop (filepath_Clean Q)"
    using assms by (auto simp: sanitize_def filepath_ToSlash_def Let_def)
  then have "sanitize pf P = sanitize unix Q" by (simp add: sanitize_unfold)
  then show ?thesis using sanitizedForm_nonempty[OF sanitize_form, of Q] by simp
qed

text \<open>
  The bytes of a cleaned path are bytes of the path, dots and slashes; so on the Windows
  target, after \<open>filepath.ToSlash\<close>, the cleaned path is the volume name followed by the
  cleaned slash-separated rest.
\<close>

lemma splitSlash_chars: "\<forall>e\<in>set (splitSlash s). set e \<subseteq> set s"
proof (induction s)
  case Nil
  then show ?case by simp
next
  case (Cons c s)
  obtain w ws where sp: "splitSlash s = w # ws"
    using splitSlash_nonempty[of s] by (cases "splitSlash s") auto
  with Cons have "set w \<subseteq> set s" "\<forall>e\<in>set ws. set e \<subseteq> set s" by simp_all
  with sp show ?case by auto
qed

lemma cleanStep_chars:
  assumes "\<forall>t\<in>set stk. set t \<subseteq> A" and "set e \<subseteq> A" and "CHR ''.'' \<in> A"
  shows "\<forall>t\<in>set (cleanStep rooted stk e). set t \<subseteq> A"
  using assms by (cases stk) auto

lemma foldl_chars:
  "\<forall>t\<in>set stk. set t \<subseteq> A \<Longrightarrow> \<forall>e\<in>set es. set e \<subseteq> A \<Longrightarrow> CHR ''.'' \<in> A \<Longrightarrow>
   \<forall>t\<in>set (foldl (cleanStep rooted) stk es). set t \<subseteq> A"
proof (induction es arbitrary: stk)
  case Nil
  then show ?case by simp
next
  case (Cons e es)
  have "\<forall>t\<in>set (cleanStep rooted stk e). set t \<subseteq> A"
    using Cons.prems by (intro cleanStep_chars) auto
  with Cons show ?case by (simp del: cleanStep.simps)
qed

lemma joinSlash_chars:
  "\<forall>t\<in>set es. set t \<subseteq> A \<Longrightarrow> CHR ''/'' \<in> A \<Longrightarrow> set (joinSlash es) \<subseteq> A"
  by (induction es rule: joinSlash.induct) auto

lemma filepath_Clean_chars: "set (filepath_Clean p) \<subseteq> set p \<union> {CHR ''.'', CHR ''/''}"
proof -
  let ?A = "set p \<union> {CHR ''.'', CHR ''/''}"
  have el: "\<forall>e\<in>set (splitSlash p). set e \<subseteq> ?A"
    using splitSlash_chars[of p] by blast
  have "\<forall>t\<in>set (foldl (cleanStep r) [] (splitSlash p)). set t \<subseteq> ?A" for r
    by (rule foldl_chars[OF _ el]) simp_all
  then have "set (joinSlash (rev (foldl (cleanStep r) [] (splitSlash p)))) \<subseteq> ?A" for r
    by (intro joinSlash_chars) simp_all
  then show ?thesis
    by (auto simp: filepath_Clean_def Let_def simp del: cleanStep.simps)
qed

lemma windows_ToSlash_no_backslash: "CHR 0x5C \<notin> set (windows_ToSlash p)"
  by (auto simp: windows_ToSlash_def)

lemma windows_round: "CHR 0x5C \<notin> set q \<Longrightarrow> windows_ToSlash (windows_FromSlash q) = q"
  by (induction q) (auto simp: windows_ToSlash_def windows_FromSlash_def)

lemma windows_clean_slash:
  "fp_ToSlash windows (fp_Clean windows p) =
     windows_volumeName p @ filepath_Clean (windows_ToSlash (drop (length (windows_volumeName p)) p))"
proof -
  let ?vol = "windows_volumeName p"
  let ?z = "windows_ToSlash (drop (length ?vol) p)"
  have "CHR 0x5C \<notin> set (filepath_Clean ?z)"
    using filepath_Clean_chars[of ?z] windows_ToSlash_no_backslash[of "drop (length ?vol) p"]
    by auto
  then have r: "windows_ToSlash (windows_FromSlash (filepath_Clean ?z)) = filepath_Clean ?z"
    by (rule windows_round)
  have v: "windows_ToSlash ?vol = ?vol"
    by (auto simp: windows_volumeName_def windows_ToSlash_def take_Suc_conv_app_nth numeral_2_eq_2
        intro!: nth_equalityI)
  have "fp_ToSlash windows (fp_Clean windows p) =
        windows_ToSlash ?vol @ windows_ToSlash (windows_FromSlash (filepath_Clean ?z))"
    by (simp add: windows_def windows_Clean_def Let_def) (simp add: windows_ToSlash_def)
  with r v show ?thesis by simp
qed

text \<open>On the Windows target the result is never empty either, and the table holds.\<close>

lemma sanitize_nonempty_windows: "sanitize windows P \<noteq> []"
proof -
  obtain Q where s: "sanitize windows P = sanitize_loop (fp_ToSlash windows (fp_Clean windows Q))"
    by (auto simp: sanitize_def Let_def)
  let ?vol = "windows_volumeName Q"
  let ?z = "windows_ToSlash (drop (length ?vol) Q)"
  show ?thesis
  proof (cases "?vol = []")
    case True
    then have "sanitize windows P = sanitize unix ?z"
      by (simp add: s windows_clean_slash sanitize_unfold)
    then show ?thesis using sanitizedForm_nonempty[OF sanitize_form, of ?z] by simp
  next
    case False
    then have "length Q \<ge> 2" "Q ! 1 = CHR '':''" "?vol = take 2 Q"
      by (auto simp: windows_volumeName_def split: if_splits)
    then obtain a r where v: "?vol = a # CHR '':'' # r"
      by (cases Q; cases "tl Q") auto
    then have "\<not> prefix ''../'' (?vol @ filepath_Clean ?z)" by simp
    then have "sanitize_loop (?vol @ filepath_Clean ?z) = ?vol @ filepath_Clean ?z"
      by (rule loop_fixed)
    with False show ?thesis by (simp add: s windows_clean_slash)
  qed
qed

lemma sanitize_table_windows:
  "sanitize windows ''../../.././etc/passwd'' = ''etc/passwd''
   \<and> sanitize windows ''./etc/passwd'' = ''etc/passwd''
   \<and> sanitize windows ''a/b/c/../d'' = ''a/b/d''
   \<and> sanitize windows ''a/../../c'' = ''c''
   \<and> sanitize windows ''...../etc/password'' = ''...../etc/password''"
  by code_simp

section \<open>Properties of the sniffer\<close>

lemma prefix_take: "length s = n \<Longrightarrow> prefix s w \<longleftrightarrow> s = take n w"
  by (metis append_eq_conv_conj prefix_def append_take_drop_id)

lemma sniff_window_unfold:
  assumes "length w = 6"
  shows "sniff_window w =
     (if magicTAR = take 5 w then ''tar''
      else if magicZIP = take 4 w then ''zip''
      else if magicGZ = take 2 w then ''gzip''
      else if magicBZIP = take 2 w then ''bzip''
      else if magicXZ = w then ''xz''
      else [])"
proof -
  have p1: "prefix [0x75, 0x73, 0x74, 0x61, 0x72] w \<longleftrightarrow> magicTAR = take 5 w"
    unfolding magicTAR_def by (rule prefix_take) simp
  have p2: "prefix [0x50, 0x4b, 0x03, 0x04] w \<longleftrightarrow> magicZIP = take 4 w"
    unfolding magicZIP_def by (rule prefix_take) simp
  have p3: "prefix [0x1f, 0x8b] w \<longleftrightarrow> magicGZ = take 2 w"
    unfolding magicGZ_def by (rule prefix_take) simp
  have p4: "prefix [0x42, 0x5a] w \<longleftrightarrow> magicBZIP = take 2 w"
    unfolding magicBZIP_def by (rule prefix_take) simp
  have "prefix [0xfd, 0x37, 0x7a, 0x58, 0x5a, 0x00] w \<longleftrightarrow> magicXZ = take 6 w"
    unfolding magicXZ_def by (rule prefix_take) simp
  then have p5: "prefix [0xfd, 0x37, 0x7a, 0x58, 0x5a, 0x00] w \<longleftrightarrow> magicXZ = w"
    using assms by simp
  show ?thesis
    unfolding sniff_window_def signatures_def
    by (simp only: find.simps case_prod_conv p1 p2 p3 p4 p5 option.case if_distrib[of "case_option _ _"] split: if_splits)
qed

text \<open>
  C5. For every byte offset, \<open>magicNumber\<close> returns the error of the peek of
  \<open>offset + 6\<close> bytes when that peek fails and no error otherwise. When the stream is
  long enough for the peek (and the peek fits the buffer), the tag is decided by the six
  bytes of the stream at the offset alone, compared with the signatures in the order TAR
  (5 bytes), ZIP (4), GZIP (2), BZIP2 (2), XZ (6), and it is the empty, unknown tag, with
  no error, when no signature matches.
\<close>

theorem magicNumber_precedence:
  "magicNumber r (int off) =
     (case bufio_Peek r (int off + 6) of
        Inl err \<Rightarrow> ([], Some err)
      | Inr headerBytes \<Rightarrow> (sniff_window (drop off headerBytes), None))
   \<and> (int off + 6 \<le> int (length (rd_data r)) \<and> int off + 6 \<le> bufio_size \<longrightarrow>
        magicNumber r (int off) = (sniff_window (take 6 (drop off (rd_data r))), None))"
proof -
  have a: "magicNumber r (int off) =
           (case bufio_Peek r (int off + 6) of
              Inl err \<Rightarrow> ([], Some err)
            | Inr headerBytes \<Rightarrow> (sniff_window (drop off headerBytes), None))"
  proof (cases "bufio_Peek r (int off + 6)")
    case (Inl e)
    then show ?thesis by (simp add: magicNumber_def)
  next
    case (Inr hb)
    then have len: "length hb = off + 6"
      by (auto simp: bufio_Peek_def nat_add_distrib split: if_splits)
    then have l6: "length (drop off hb) = 6" by simp
    then have "take 6 (drop off hb) = drop off hb" by simp
    with Inr l6 show ?thesis
      by (simp add: magicNumber_def sniff_window_unfold Let_def)
  qed
  have b: "magicNumber r (int off) = (sniff_window (take 6 (drop off (rd_data r))), None)"
    if "int off + 6 \<le> int (length (rd_data r))" and "int off + 6 \<le> bufio_size"
  proof -
    have n: "nat (int off + 6) = off + 6" by (simp add: nat_add_distrib)
    have p: "bufio_Peek r (int off + 6) = Inr (take (off + 6) (rd_data r))"
      using that by (simp add: bufio_Peek_def n)
    have "drop off (take (off + 6) (rd_data r)) = take 6 (drop off (rd_data r))"
      by (simp add: drop_take)
    with a p show ?thesis by simp
  qed
  from a b show ?thesis by blast
qed

text \<open>
  A 512-byte block with the TAR signature at offset 257 sniffs as \<open>tar\<close> there; a
  three-byte stream fails at offset 0 with the error of the peek.
\<close>

theorem magicNumber_precedence_witness:
  "int 257 + 6 \<le> int (length (rd_data tar_block)) \<and> int 257 + 6 \<le> bufio_size
   \<and> magicNumber tar_block 257 = (''tar'', None)
   \<and> magicNumber \<lparr> rd_data = [0x1f, 0x8b, 0x08], rd_err = EOF \<rparr> 0 = ([], Some EOF)"
proof -
  have l: "int 257 + 6 \<le> int (length (rd_data tar_block))" "int 257 + 6 \<le> bufio_size"
    by (simp_all add: tar_block_def bufio_size_def)
  have w: "take 6 (drop 257 (rd_data tar_block)) = [0x75, 0x73, 0x74, 0x61, 0x72, 0x00]"
    by (simp add: tar_block_def)
  have s: "sniff_window [0x75, 0x73, 0x74, 0x61, 0x72, 0x00] = ''tar''"
    by (simp add: sniff_window_def signatures_def)
  have p: "bufio_Peek \<lparr> rd_data = [0x1f, 0x8b, 0x08], rd_err = EOF \<rparr> (int 0 + 6) = Inl EOF"
    by (simp add: bufio_Peek_def bufio_size_def)
  have t: "magicNumber tar_block (int 257) = (''tar'', None)"
    using magicNumber_precedence [of tar_block 257, THEN conjunct2] l w s by simp
  have e: "magicNumber \<lparr> rd_data = [0x1f, 0x8b, 0x08], rd_err = EOF \<rparr> (int 0) = ([], Some EOF)"
    using magicNumber_precedence [of "\<lparr> rd_data = [0x1f, 0x8b, 0x08], rd_err = EOF \<rparr>" 0,
        THEN conjunct1] p by simp
  from l t e show ?thesis by simp
qed

section \<open>Properties of the decompression wrappers\<close>

text \<open>
  C7 (as amended). When the library's constructor rejects the stream header,
  \<open>GunzipStream\<close> and \<open>UnxzStream\<close> fail with that error and return no stream.
  \<open>Bunzip2Stream\<close> never fails at initialisation: it returns a stream for every input.
\<close>

theorem wrap_init:
  "(gzip_NewReader lib r = Inl e \<longrightarrow> GunzipStream lib r = Inl e)
   \<and> (xz_NewReader lib r = Inl e \<longrightarrow> UnxzStream lib r = Inl e)
   \<and> (\<forall>e'. Bunzip2Stream lib r \<noteq> Inl e')"
  by (simp add: GunzipStream_def UnxzStream_def Bunzip2Stream_def)

text \<open>
  With libraries that reject the headers of a four-byte stream, \<open>GunzipStream\<close> and
  \<open>UnxzStream\<close> return the constructors' errors.
\<close>

theorem wrap_init_witness:
  "gzip_NewReader (rejecting_libs ([], EOF)) \<lparr> rd_data = [0x00, 0x01, 0x02, 0x03], rd_err = EOF \<rparr>
     = Inl (Failure ''gzip: invalid header'')
   \<and> GunzipStream (rejecting_libs ([], EOF)) \<lparr> rd_data = [0x00, 0x01, 0x02, 0x03], rd_err = EOF \<rparr>
     = Inl (Failure ''gzip: invalid header'')
   \<and> xz_NewReader (rejecting_libs ([], EOF)) \<lparr> rd_data = [0x00, 0x01, 0x02, 0x03], rd_err = EOF \<rparr>
     = Inl (Failure ''xz: invalid header magic bytes'')
   \<and> UnxzStream (rejecting_libs ([], EOF)) \<lparr> rd_data = [0x00, 0x01, 0x02, 0x03], rd_err = EOF \<rparr>
     = Inl (Failure ''xz: invalid header magic bytes'')"
proof -
  let ?r = "\<lparr> rd_data = [0x00, 0x01, 0x02, 0x03 :: byte], rd_err = EOF \<rparr>"
  have g: "gzip_NewReader (rejecting_libs ([], EOF)) ?r = Inl (Failure ''gzip: invalid header'')"
    by (simp add: rejecting_libs_def)
  have x: "xz_NewReader (rejecting_libs ([], EOF)) ?r = Inl (Failure ''xz: invalid header magic bytes'')"
    by (simp add: rejecting_libs_def)
  from wrap_init [of "rejecting_libs ([], EOF)" ?r "Failure ''gzip: invalid header''"]
    wrap_init [of "rejecting_libs ([], EOF)" ?r "Failure ''xz: invalid header magic bytes''"]
    g x
  show ?thesis by blast
qed

text \<open>
  C7 as stated fails for bzip2: with libraries that find the header of the four-byte
  stream 00 01 02 03 malformed, \<open>Bunzip2Stream\<close> returns no error but a stream, and
  that stream reports the malformed header when it is read.
\<close>

theorem Bunzip2Stream_malformed_counterexample:
  "Bunzip2Stream (rejecting_libs ([], EOF)) \<lparr> rd_data = [0x00, 0x01, 0x02, 0x03], rd_err = EOF \<rparr>
     = Inr \<lparr> rd_data = [], rd_err = Failure ''bzip2 data invalid: bad magic value'' \<rparr>"
  by (simp add: Bunzip2Stream_def rejecting_libs_def bufio_NewReader_def)

section \<open>Properties of the ZIP extractor\<close>

lemma syscalls_append: "syscalls (a @ b) = syscalls a @ syscalls b"
  by (induction a rule: syscalls.induct) auto

lemma os_call_ok: "w tr c = None \<Longrightarrow> os_call w c tr = (None, tr @ [Sys c])"
  by (simp add: os_call_def)

lemma syscalls_close_logged: "syscalls (close_logged w name tr) = syscalls tr @ [Close name]"
  by (auto simp: close_logged_def os_call_def syscalls_append split: option.splits)

lemma syscalls_chmod_logged: "syscalls (chmod_logged w name m tr) = syscalls tr @ [Chmod name m]"
  by (auto simp: chmod_logged_def os_call_def syscalls_append split: option.splits)

lemma syscalls_chtimes_logged: "syscalls (chtimes_logged w name t tr) = syscalls tr @ [Chtimes name t]"
  by (auto simp: chtimes_logged_def os_call_def syscalls_append split: option.splits)

lemma syscalls_rc_close: "syscalls (rc_close_logged f tr) = syscalls tr"
  by (auto simp: rc_close_logged_def syscalls_append split: option.splits)

lemma set_close_logged: "set tr \<subseteq> set (close_logged w name tr)"
  by (auto simp: close_logged_def os_call_def split: option.splits)

lemma set_rc_close: "set tr \<subseteq> set (rc_close_logged f tr)"
  by (auto simp: rc_close_logged_def split: option.splits)

lemma set_chtimes_logged: "set tr \<subseteq> set (chtimes_logged w name t tr)"
  by (auto simp: chtimes_logged_def os_call_def split: option.splits)

lemma set_io_CopyN: "set tr \<subseteq> set (snd (io_CopyN w name src n tr))"
  by (auto simp: io_CopyN_def os_call_def Let_def split: option.splits)

lemma chmod_logged_warn:
  "\<forall>h. w h (Chmod name m) = Some e \<Longrightarrow> LogWarnPermissions name e \<in> set (chmod_logged w name m tr)"
  by (simp add: chmod_logged_def os_call_def)

lemma chtimes_logged_warn:
  "\<forall>h. w h (Chtimes name t) = Some e \<Longrightarrow> LogWarnTimes name e \<in> set (chtimes_logged w name t tr)"
  by (simp add: chtimes_logged_def os_call_def)

lemma io_CopyN_ok:
  assumes "\<forall>h. w h (Write name (take (nat n) (rd_data src))) = None"
      and "n \<le> int (length (rd_data src))"
  shows "io_CopyN w name src n tr =
           (None, tr @ (if take (nat n) (rd_data src) = [] then []
                        else [Sys (Write name (take (nat n) (rd_data src)))]))"
  using assms by (auto simp: io_CopyN_def os_call_def Let_def min_def)

lemma unzipFile_file_unfold:
  assumes "\<not> zf_IsDir f" and "zf_Open f = Inr rc"
      and "p = fp_Join pf [destPath, sanitize pf (zf_Name f)]"
      and "d = fp_Dir pf p"
      and "\<forall>h. w h (MkdirAll d 448) = None"
      and "\<forall>h. w h (Create p) = None"
  shows "unzipFile w pf f destPath tr =
           (let tr2 = tr @ [Sys (Lstat d)] @ (if w tr (Lstat d) = None then [] else [Sys (MkdirAll d 448)]);
                tr5 = chtimes_logged w p (zf_ModTime f) (chmod_logged w p (zf_Mode f) (tr2 @ [Sys (Create p)]));
                r = io_CopyN w p rc (sint (zf_UncompressedSize64 f)) tr5
            in (fst r, rc_close_logged f (close_logged w p (snd r))))"
  using assms
  by (auto simp: unzipFile_def os_call_def Let_def split: prod.splits option.splits)

text \<open>
  What \<open>unzipFile\<close> does with an entry that is a regular file, whose reader opens and
  holds the declared count \<open>n\<close> of bytes, on a system where creating the parent directory,
  creating the file and writing to it succeed: it returns no error, and its calls are, in
  this order, the check of the parent directory of the sanitized path (and its creation
  with mode 0700 when the check fails), the creation of the file, the change of its
  permission bits, the change of its modification time, the write of the first \<open>n\<close>
  bytes of the entry, and the close. A failure to set the metadata is logged and the
  extraction goes on.
\<close>

lemma unzipFile_regular_order:
  assumes "\<not> zf_IsDir f" and "zf_Open f = Inr rc"
      and "p = fp_Join pf [destPath, sanitize pf (zf_Name f)]"
      and "d = fp_Dir pf p"
      and "n = sint (zf_UncompressedSize64 f)"
      and "n \<le> int (length (rd_data rc))"
      and "\<forall>h. w h (MkdirAll d 448) = None"
      and "\<forall>h. w h (Create p) = None"
      and "\<forall>h. w h (Write p (take (nat n) (rd_data rc))) = None"
  shows "fst (unzipFile w pf f destPath tr) = None
       \<and> syscalls (snd (unzipFile w pf f destPath tr)) =
           syscalls tr @ [Lstat d] @ (if w tr (Lstat d) = None then [] else [MkdirAll d 448])
           @ [Create p, Chmod p (zf_Mode f), Chtimes p (zf_ModTime f)]
           @ (if take (nat n) (rd_data rc) = [] then [] else [Write p (take (nat n) (rd_data rc))])
           @ [Close p]
       \<and> ((\<forall>h. w h (Chmod p (zf_Mode f)) = Some e1) \<longrightarrow>
            LogWarnPermissions p e1 \<in> set (snd (unzipFile w pf f destPath tr)))
       \<and> ((\<forall>h. w h (Chtimes p (zf_ModTime f)) = Some e2) \<longrightarrow>
            LogWarnTimes p e2 \<in> set (snd (unzipFile w pf f destPath tr)))"
proof -
  define tr2 where
    "tr2 = tr @ [Sys (Lstat d)] @ (if w tr (Lstat d) = None then [] else [Sys (MkdirAll d 448)])"
  define tr4 where "tr4 = chmod_logged w p (zf_Mode f) (tr2 @ [Sys (Create p)])"
  define tr5 where "tr5 = chtimes_logged w p (zf_ModTime f) tr4"
  define lim where "lim = take (nat n) (rd_data rc)"
  define tr6 where "tr6 = tr5 @ (if lim = [] then [] else [Sys (Write p lim)])"
  define res where "res = unzipFile w pf f destPath tr"
  have copy: "io_CopyN w p rc n tr5 = (None, tr6)"
    unfolding tr6_def lim_def using assms(6,9) by (rule io_CopyN_ok[rotated])
  have u: "res = (None, rc_close_logged f (close_logged w p tr6))"
    using unzipFile_file_unfold[OF assms(1-4) assms(7,8), of tr] copy assms(5)
    by (simp add: Let_def res_def tr2_def tr4_def tr5_def)
  have c1: "fst res = None" using u by simp
  have "syscalls tr2 = syscalls tr @ [Lstat d] @ (if w tr (Lstat d) = None then [] else [MkdirAll d 448])"
    by (simp add: tr2_def syscalls_append)
  then have "syscalls tr5 = syscalls tr @ [Lstat d] @ (if w tr (Lstat d) = None then [] else [MkdirAll d 448])
      @ [Create p, Chmod p (zf_Mode f), Chtimes p (zf_ModTime f)]"
    by (simp add: tr5_def tr4_def syscalls_chtimes_logged syscalls_chmod_logged syscalls_append)
  then have c2: "syscalls (snd res) =
           syscalls tr @ [Lstat d] @ (if w tr (Lstat d) = None then [] else [MkdirAll d 448])
           @ [Create p, Chmod p (zf_Mode f), Chtimes p (zf_ModTime f)]
           @ (if lim = [] then [] else [Write p lim]) @ [Close p]"
    by (simp add: u syscalls_rc_close syscalls_close_logged tr6_def syscalls_append)
  have s45: "set tr4 \<subseteq> set tr5" unfolding tr5_def by (rule set_chtimes_logged)
  have s56: "set tr5 \<subseteq> set tr6" unfolding tr6_def by auto
  have s6: "set tr6 \<subseteq> set (snd res)"
    using set_close_logged[of tr6 w p] set_rc_close[of "close_logged w p tr6" f]
    unfolding u by simp
  have c3: "(\<forall>h. w h (Chmod p (zf_Mode f)) = Some e1) \<longrightarrow> LogWarnPermissions p e1 \<in> set (snd res)"
    using chmod_logged_warn[of w p "zf_Mode f" e1 "tr2 @ [Sys (Create p)]"] s45 s56 s6
    unfolding tr4_def[symmetric] by blast
  have c4: "(\<forall>h. w h (Chtimes p (zf_ModTime f)) = Some e2) \<longrightarrow> LogWarnTimes p e2 \<in> set (snd res)"
    using chtimes_logged_warn[of w p "zf_ModTime f" e2 tr4] s56 s6
    unfolding tr5_def[symmetric] by blast
  from c1 c2 c3 c4 show ?thesis unfolding res_def lim_def by blast
qed

lemmas path_eval = unix_def filepath_Clean_def sanitize_def sanitize_loop.simps strings_HasPrefix_def
  filepath_ToSlash_def filepath_Dir_def filepath_Split_def path_Base_def Let_def

text \<open>
  The same on a system that refuses to change permissions and times: the extraction of a
  three-byte file entry succeeds, and both refusals are logged.
\<close>

lemma unzipFile_regular_order_example:
  "fst (unzipFile os_no_metadata unix small_file ''/tmp/out'' []) = None
   \<and> syscalls (snd (unzipFile os_no_metadata unix small_file ''/tmp/out'' [])) =
       [Lstat ''/tmp/out/docs'', Create ''/tmp/out/docs/a.txt'',
        Chmod ''/tmp/out/docs/a.txt'' 420, Chtimes ''/tmp/out/docs/a.txt'' 1600000000,
        Write ''/tmp/out/docs/a.txt'' [0x61, 0x62, 0x63], Close ''/tmp/out/docs/a.txt'']
   \<and> LogWarnPermissions ''/tmp/out/docs/a.txt'' (Failure ''operation not permitted'')
        \<in> set (snd (unzipFile os_no_metadata unix small_file ''/tmp/out'' []))
   \<and> LogWarnTimes ''/tmp/out/docs/a.txt'' (Failure ''operation not permitted'')
        \<in> set (snd (unzipFile os_no_metadata unix small_file ''/tmp/out'' []))"
proof -
  let ?rc = "\<lparr> rd_data = [0x61, 0x62, 0x63 :: byte], rd_err = EOF \<rparr>"
  have h1: "\<not> zf_IsDir small_file" by (simp add: small_file_def)
  have h2: "zf_Open small_file = Inr ?rc" by (simp add: small_file_def)
  have h3: "''/tmp/out/docs/a.txt'' = fp_Join unix [''/tmp/out'', sanitize unix (zf_Name small_file)]"
    by (simp add: small_file_def path_eval)
  have h4: "''/tmp/out/docs'' = fp_Dir unix ''/tmp/out/docs/a.txt''"
    by (simp add: path_eval)
  have h5: "(3::int) = sint (zf_UncompressedSize64 small_file)" by (simp add: small_file_def)
  have h6: "(3::int) \<le> int (length (rd_data ?rc))" by simp
  have h7: "\<forall>h. os_no_metadata h (MkdirAll ''/tmp/out/docs'' 448) = None"
    by (simp add: os_no_metadata_def)
  have h8: "\<forall>h. os_no_metadata h (Create ''/tmp/out/docs/a.txt'') = None"
    by (simp add: os_no_metadata_def)
  have h9: "\<forall>h. os_no_metadata h (Write ''/tmp/out/docs/a.txt'' (take (nat 3) (rd_data ?rc))) = None"
    by (simp add: os_no_metadata_def)
  have m: "zf_Mode small_file = 420" "zf_ModTime small_file = 1600000000"
    by (simp_all add: small_file_def)
  have a1: "\<forall>h. os_no_metadata h (Chmod ''/tmp/out/docs/a.txt'' 420) = Some (Failure ''operation not permitted'')"
    by (simp add: os_no_metadata_def)
  have a2: "\<forall>h. os_no_metadata h (Chtimes ''/tmp/out/docs/a.txt'' 1600000000) = Some (Failure ''operation not permitted'')"
    by (simp add: os_no_metadata_def)
  have l: "os_no_metadata [] (Lstat ''/tmp/out/docs'') = None"
    by (simp add: os_no_metadata_def)
  show ?thesis
    using unzipFile_regular_order [OF h1 h2 h3 h4 h5 h6 h7 h8 h9,
        where ?e1.0 = "Failure ''operation not permitted''"
          and ?e2.0 = "Failure ''operation not permitted''" and tr = "[]"]
    by (simp add: m a1 a2 l)
qed

text \<open>
  C6 (the code departs from it). \<open>unzipFile\<close> sets the permission bits and the
  modification time before it copies the bytes, not after: extracting a three-byte file
  entry with the recorded time 1600000000 on a system where every call succeeds, the
  calls are check, create, chmod, chtimes, write, close, and the write that follows
  \<open>os.Chtimes\<close> leaves the file with the time of the write, not with the entry's time.
\<close>

theorem unzipFile_metadata_before_copy:
  "unzipFile os_ok unix small_file ''/tmp/out'' [] =
     (None,
      [Sys (Lstat ''/tmp/out/docs''), Sys (Create ''/tmp/out/docs/a.txt''),
       Sys (Chmod ''/tmp/out/docs/a.txt'' 420), Sys (Chtimes ''/tmp/out/docs/a.txt'' 1600000000),
       Sys (Write ''/tmp/out/docs/a.txt'' [0x61, 0x62, 0x63]), Sys (Close ''/tmp/out/docs/a.txt'')])
   \<and> mtime_after (syscalls (snd (unzipFile os_ok unix small_file ''/tmp/out'' [])))
         ''/tmp/out/docs/a.txt'' = Some TimeOfCall
   \<and> mtime_after
         [Lstat ''/tmp/out/docs'', Create ''/tmp/out/docs/a.txt'',
          Write ''/tmp/out/docs/a.txt'' [0x61, 0x62, 0x63],
          Chmod ''/tmp/out/docs/a.txt'' 420, Chtimes ''/tmp/out/docs/a.txt'' 1600000000,
          Close ''/tmp/out/docs/a.txt'']
         ''/tmp/out/docs/a.txt'' = Some (TimeSet 1600000000)"
proof -
  have u: "unzipFile os_ok unix small_file ''/tmp/out'' [] =
     (None,
      [Sys (Lstat ''/tmp/out/docs''), Sys (Create ''/tmp/out/docs/a.txt''),
       Sys (Chmod ''/tmp/out/docs/a.txt'' 420), Sys (Chtimes ''/tmp/out/docs/a.txt'' 1600000000),
       Sys (Write ''/tmp/out/docs/a.txt'' [0x61, 0x62, 0x63]), Sys (Close ''/tmp/out/docs/a.txt'')])"
    by (simp add: unzipFile_def small_file_def os_ok_def os_call_def chmod_logged_def
          chtimes_logged_def io_CopyN_def close_logged_def rc_close_logged_def path_eval)
  show ?thesis unfolding u by simp
qed

text \<open>
  C3 (the code departs from it). For a directory entry \<open>unzipFile\<close> joins the
  destination root with the entry's name as it stands, not with the sanitized name as
  the file branch and the TAR extractor do: the entry \<open>../evil/\<close> extracted to \<open>/tmp/out\<close>
  creates \<open>/tmp/evil\<close>, outside the root, where the sanitized path is \<open>/tmp/out/evil\<close>.
  The permission bits are the entry's (mode \<open>drwxr-xr-x\<close>, bits 0755).
\<close>

theorem unzipFile_directory_unsanitized:
  "unzipFile os_ok unix
      \<lparr> zf_Name = ''../evil/'', zf_IsDir = True, zf_Mode = 0x800001ED, zf_ModTime = 0,
        zf_UncompressedSize64 = 0, zf_Open = Inr \<lparr> rd_data = [], rd_err = EOF \<rparr>, zf_Close = None \<rparr>
      ''/tmp/out'' []
     = (None, [Sys (MkdirAll ''/tmp/evil'' 0x1ED)])
   \<and> filepath_Join [''/tmp/out'', sanitize unix ''../evil/''] = ''/tmp/out/evil''"
  by (simp add: unzipFile_def os_call_def os_ok_def Perm_def path_eval)

section \<open>Properties of the TAR extractor\<close>

lemma first_dir_Cons:
  "first_dir pf d ((hdr, body) # rest) =
     (if th_Name hdr \<noteq> ''pax_global_header'' \<and> th_IsDir hdr
         \<and> fp_Join pf [d, sanitize pf (th_Name hdr)] \<noteq> d
      then fp_Join pf [d, sanitize pf (th_Name hdr)]
      else first_dir pf d rest)"
  by (simp add: first_dir_def dir_paths_def)

lemma Untar_loop_rootdir:
  "Untar_loop w pf d entries fin rootdir tr = ((res, None), tr') \<Longrightarrow>
   res = (if rootdir = d then first_dir pf d entries else rootdir)"
proof (induction entries arbitrary: rootdir tr)
  case Nil
  then show ?case by (simp add: first_dir_def dir_paths_def split: if_splits)
next
  case (Cons a entries)
  obtain hdr body where a: "a = (hdr, body)" by (cases a)
  show ?case
  proof (cases "th_Name hdr = ''pax_global_header''")
    case True
    with Cons.prems a have "Untar_loop w pf d entries fin rootdir tr = ((res, None), tr')"
      by simp
    then have "res = (if rootdir = d then first_dir pf d entries else rootdir)"
      by (rule Cons.IH)
    with a True show ?thesis by (simp add: first_dir_Cons)
  next
    case notpax: False
    let ?fp = "fp_Join pf [d, sanitize pf (th_Name hdr)]"
    show ?thesis
    proof (cases "th_IsDir hdr")
      case True
      define rootdir1 where "rootdir1 = (if rootdir = d then ?fp else rootdir)"
      from Cons.prems a notpax True obtain tr1 where
        "Untar_loop w pf d entries fin rootdir1 tr1 = ((res, None), tr')"
        by (auto simp: Let_def rootdir1_def split: prod.splits option.splits)
      then have "res = (if rootdir1 = d then first_dir pf d entries else rootdir1)"
        by (rule Cons.IH)
      then show ?thesis
        using a notpax True by (auto simp: first_dir_Cons rootdir1_def)
    next
      case False
      from Cons.prems a notpax False obtain tr1 where
        "Untar_loop w pf d entries fin rootdir tr1 = ((res, None), tr')"
        by (auto simp: Let_def split: prod.splits option.splits)
      then have "res = (if rootdir = d then first_dir pf d entries else rootdir)"
        by (rule Cons.IH)
      then show ?thesis using a False by (simp add: first_dir_Cons)
    qed
  qed
qed

text \<open>
  C4 (as amended). When \<open>Untar\<close> returns without error, the path it returns is the
  resolved path (destination path joined with the sanitized name) of the first directory
  entry, other than \<open>pax_global_header\<close>, whose resolved path differs from the
  destination path, however many top-level directories the archive has; it is the
  destination path when the archive has no such entry.
\<close>

theorem Untar_returns_first_dir:
  assumes "Untar w pf lib data destPath tr = ((rootdir, None), tr')"
  shows "rootdir = first_dir pf destPath (fst (tar_NewReader lib data))"
proof -
  obtain entries fin where p: "tar_NewReader lib data = (entries, fin)"
    by (cases "tar_NewReader lib data")
  with assms obtain tr1 where "Untar_loop w pf destPath entries fin destPath tr1 = ((rootdir, None), tr')"
    by (auto simp: Untar_def split: prod.splits option.splits)
  from Untar_loop_rootdir[OF this] p show ?thesis by simp
qed

lemmas eval_simps = Untar_def os_call_def os_ok_def rejecting_libs_def two_roots_def
        untarFile_def chmod_logged_def chtimes_logged_def io_Copy_def close_logged_def path_eval

text \<open>
  C4 as stated fails for several top-level directories: for the archive with the
  directories \<open>a/\<close> and \<open>b/\<close> extracted to \<open>/tmp/out\<close>, \<open>Untar\<close> returns \<open>/tmp/out/a\<close>,
  not the destination root.
\<close>

theorem Untar_two_roots_counterexample:
  "fst (Untar os_ok unix (rejecting_libs two_roots) \<lparr> rd_data = [], rd_err = EOF \<rparr> ''/tmp/out'' [])
     = (''/tmp/out/a'', None)"
  by (simp add: eval_simps)

text \<open>
  The same archive as an instance of the amended property.
\<close>

theorem Untar_returns_first_dir_witness:
  "fst (Untar os_ok unix (rejecting_libs two_roots) \<lparr> rd_data = [], rd_err = EOF \<rparr> ''/tmp/out'' [])
     = (''/tmp/out/a'', None)
   \<and> first_dir unix ''/tmp/out'' (fst (tar_NewReader (rejecting_libs two_roots) \<lparr> rd_data = [], rd_err = EOF \<rparr>))
     = ''/tmp/out/a''"
proof -
  obtain tr' where u: "Untar os_ok unix (rejecting_libs two_roots) \<lparr> rd_data = [], rd_err = EOF \<rparr> ''/tmp/out'' []
     = ((''/tmp/out/a'', None), tr')"
    by (simp add: eval_simps)
  from Untar_returns_first_dir[OF u] u show ?thesis by simp
qed

section \<open>Properties of the pipeline\<close>

lemma magic_len:
  assumes "magicNumber dr 257 = (t1, None)"
  shows "rd_data dr \<noteq> []"
  using assms by (auto simp: magicNumber_def bufio_Peek_def split: if_splits sum.splits)

lemma unknown_pack: "sanitize unix (path_Base ''unknown-pack'') = ''unknown-pack''"
  by (simp add: path_eval)

lemma UnpackStream_rest_saves:
  assumes "magicNumber dr 257 = (t1, None)" and "t1 \<noteq> ''tar''"
      and "p = fp_Join unix [destPath, ''unknown-pack'']"
      and "\<forall>h. w h (Create p) = None"
      and "\<forall>h. w h (Write p (rd_data dr)) = None"
      and "rd_err dr = EOF"
  shows "UnpackStream_rest w unix lib dr destPath tr =
           ((destPath, None), close_logged w p (tr @ [Sys (Create p), Sys (Write p (rd_data dr))]))"
proof -
  have ne: "rd_data dr \<noteq> []" using assms(1) by (rule magic_len)
  have copy: "io_Copy w p dr (tr @ [Sys (Create p)]) = (None, tr @ [Sys (Create p), Sys (Write p (rd_data dr))])"
    using ne assms(5,6) by (simp add: io_Copy_def os_call_def)
  show ?thesis
    using assms(1-4) copy
    by (simp add: UnpackStream_rest_def unknown_pack os_call_def Let_def)
qed

text \<open>
  The fallback for streams that are long enough. Let the sniff at offset 0 succeed with a
  tag other than \<open>zip\<close>, let the decompression layer selected by that tag, if any,
  initialise, let the sniff at offset 257 of the resulting stream succeed with a tag other
  than \<open>tar\<close>, let that stream end regularly, and let creating and writing the file
  \<open>unknown-pack\<close> under the destination path succeed. Then \<open>UnpackStream\<close> returns the
  destination path and no error, and its calls are the creation of that one file, the
  write of all bytes of the (possibly decompressed) stream, and the close.
\<close>

lemma UnpackStream_saves_unknown:
  assumes "magicNumber (bufio_NewReader reader) 0 = (t0, None)"
      and "t0 = ''gzip'' \<and> GunzipStream lib (bufio_NewReader reader) = Inr dr
           \<or> t0 = ''xz'' \<and> UnxzStream lib (bufio_NewReader reader) = Inr dr
           \<or> t0 = ''bzip'' \<and> Bunzip2Stream lib (bufio_NewReader reader) = Inr dr
           \<or> t0 \<notin> {''gzip'', ''xz'', ''bzip'', ''zip''} \<and> dr = bufio_NewReader reader"
      and "magicNumber dr 257 = (t1, None)" and "t1 \<noteq> ''tar''"
      and "p = fp_Join unix [destPath, ''unknown-pack'']"
      and "\<forall>h. w h (Create p) = None"
      and "\<forall>h. w h (Write p (rd_data dr)) = None"
      and "rd_err dr = EOF"
  shows "fst (UnpackStream w unix lib reader destPath tr) = (destPath, None)
       \<and> syscalls (snd (UnpackStream w unix lib reader destPath tr)) =
           syscalls tr @ [Create p, Write p (rd_data dr), Close p]"
proof -
  have "UnpackStream w unix lib reader destPath tr = UnpackStream_rest w unix lib dr destPath tr"
    using assms(1,2) by (auto simp: UnpackStream_def Let_def)
  also have "\<dots> = ((destPath, None), close_logged w p (tr @ [Sys (Create p), Sys (Write p (rd_data dr))]))"
    using assms(3-8) by (rule UnpackStream_rest_saves)
  finally show ?thesis
    by (simp add: syscalls_close_logged syscalls_append)
qed

text \<open>
  Three hundred spaces are saved as they are.
\<close>

lemma UnpackStream_saves_unknown_example:
  "fst (UnpackStream os_ok unix (rejecting_libs ([], EOF)) blank_stream ''/tmp/out'' []) = (''/tmp/out'', None)
   \<and> syscalls (snd (UnpackStream os_ok unix (rejecting_libs ([], EOF)) blank_stream ''/tmp/out'' [])) =
       [Create ''/tmp/out/unknown-pack'', Write ''/tmp/out/unknown-pack'' (replicate 300 0x20),
        Close ''/tmp/out/unknown-pack'']"
proof -
  have rep: "replicate 6 x = [x, x, x, x, x, x]" for x :: byte
    by (simp add: numeral_eq_Suc)
  have h1: "magicNumber (bufio_NewReader blank_stream) 0 = ([], None)"
    by (simp add: magicNumber_def bufio_Peek_def bufio_size_def bufio_NewReader_def blank_stream_def
          rep magicTAR_def magicZIP_def magicGZ_def magicBZIP_def magicXZ_def)
  have h2: "[] = ''gzip'' \<and> GunzipStream (rejecting_libs ([], EOF)) (bufio_NewReader blank_stream) = Inr blank_stream
           \<or> [] = ''xz'' \<and> UnxzStream (rejecting_libs ([], EOF)) (bufio_NewReader blank_stream) = Inr blank_stream
           \<or> [] = ''bzip'' \<and> Bunzip2Stream (rejecting_libs ([], EOF)) (bufio_NewReader blank_stream) = Inr blank_stream
           \<or> [] \<notin> {''gzip'', ''xz'', ''bzip'', ''zip''} \<and> blank_stream = bufio_NewReader blank_stream"
    by (simp add: bufio_NewReader_def)
  have h3: "magicNumber blank_stream 257 = ([], None)"
    by (simp add: magicNumber_def bufio_Peek_def bufio_size_def blank_stream_def
          rep magicTAR_def magicZIP_def magicGZ_def magicBZIP_def magicXZ_def)
  have h4: "[] \<noteq> ''tar''" by simp
  have h5: "''/tmp/out/unknown-pack'' = fp_Join unix [''/tmp/out'', ''unknown-pack'']"
    by (simp add: path_eval)
  have h6: "\<forall>h. os_ok h (Create ''/tmp/out/unknown-pack'') = None" by (simp add: os_ok_def)
  have h7: "\<forall>h. os_ok h (Write ''/tmp/out/unknown-pack'' (rd_data blank_stream)) = None"
    by (simp add: os_ok_def)
  have h8: "rd_err blank_stream = EOF" by (simp add: blank_stream_def)
  show ?thesis
    using UnpackStream_saves_unknown [OF h1 h2 h3 h4 h5 h6 h7 h8, of "[]"]
    by (simp add: blank_stream_def)
qed

text \<open>
  C2 (the code departs from it). A stream that is not recognized is to be saved as it is,
  but the second sniff needs 263 bytes: ten bytes of text carry no signature at offset 0,
  the peek for the sniff at offset 257 fails, and \<open>UnpackStream\<close> returns that error
  (\<open>EOF\<close>) on a system where every call succeeds, without creating a file.
\<close>

theorem UnpackStream_short_stream_fails:
  "magicNumber short_stream 0 = ([], None)
   \<and> UnpackStream os_ok unix (rejecting_libs ([], EOF)) short_stream ''/tmp/out'' [] = (([], Some EOF), [])"
  by (simp add: UnpackStream_def UnpackStream_rest_def magicNumber_def bufio_Peek_def bufio_size_def
        bufio_NewReader_def short_stream_def magicTAR_def magicZIP_def magicGZ_def magicBZIP_def magicXZ_def)

end
